theory Spec2Isabelle
  imports Complex_Main "HOL-Library.Word"
begin

unbundle bit_operations_syntax

section \<open>Go values used by main.go\<close>

text \<open>
  A Go \<open>string\<close> is a sequence of bytes: it is modelled as an Isabelle \<open>string\<close>, one
  \<open>char\<close> per byte. \<open>len(s)\<close> counts bytes (\<open>length\<close>), while \<open>for _, c := range s\<close>
  decodes UTF-8 and yields runes (\<open>int32\<close>). Go's \<open>int\<close> counts (token counts, indices)
  are sums of string lengths and cannot leave the 64-bit range, so they are \<open>int\<close>;
  \<open>int64\<close> values whose wrap-around matters (the seed, durations, timestamps) are
  \<open>64 word\<close>.
\<close>

type_synonym byte = "8 word"
type_synonym rune = "32 word"
type_synonym int64 = "64 word"

datatype go_panic = MakesliceLenOutOfRange | IndexOutOfRange

subsection \<open>Ranging over a string\<close>

text \<open>
  The constants and the decoder of the Go runtime (\<open>runtime/utf8.go\<close>), which the
  compiler calls for every non-ASCII byte met by a \<open>range\<close> loop over a string. An
  invalid or incomplete sequence yields \<open>runeError\<close> (U+FFFD) and advances one byte.
  \<open>decoderune\<close> returns the rune and the number of bytes it consumed.
\<close>

definition runeError :: rune where "runeError = 0xFFFD"
definition runeSelf :: byte where "runeSelf = 0x80"
definition maxRune :: rune where "maxRune = 0x10FFFF"
definition surrogateMin :: rune where "surrogateMin = 0xD800"
definition surrogateMax :: rune where "surrogateMax = 0xDFFF"
definition t2 :: byte where "t2 = 0xC0"
definition t3 :: byte where "t3 = 0xE0"
definition t4 :: byte where "t4 = 0xF0"
definition t5 :: byte where "t5 = 0xF8"
definition maskx :: byte where "maskx = 0x3F"
definition mask2 :: byte where "mask2 = 0x1F"
definition mask3 :: byte where "mask3 = 0x0F"
definition mask4 :: byte where "mask4 = 0x07"
definition rune1Max :: rune where "rune1Max = 0x7F"
definition rune2Max :: rune where "rune2Max = 0x7FF"
definition rune3Max :: rune where "rune3Max = 0xFFFF"
definition locb :: byte where "locb = 0x80"
definition hicb :: byte where "hicb = 0xBF"

definition cont :: "byte \<Rightarrow> bool" where
  "cont b = (locb \<le> b \<and> b \<le> hicb)"

definition decoderune :: "byte list \<Rightarrow> rune \<times> nat" where
  "decoderune s =
    (if s = [] then (runeError, 1)
     else if t2 \<le> s ! 0 \<and> s ! 0 < t3 then
       (if length s > 1 \<and> cont (s ! 1) then
          (let r = push_bit 6 (ucast (s ! 0 AND mask2)) OR ucast (s ! 1 AND maskx)
           in if sint rune1Max < sint r then (r, 2) else (runeError, 1))
        else (runeError, 1))
     else if t3 \<le> s ! 0 \<and> s ! 0 < t4 then
       (if length s > 2 \<and> cont (s ! 1) \<and> cont (s ! 2) then
          (let r = push_bit 12 (ucast (s ! 0 AND mask3)) OR push_bit 6 (ucast (s ! 1 AND maskx))
                   OR ucast (s ! 2 AND maskx)
           in if sint rune2Max < sint r
                 \<and> \<not> (sint surrogateMin \<le> sint r \<and> sint r \<le> sint surrogateMax)
              then (r, 3) else (runeError, 1))
        else (runeError, 1))
     else if t4 \<le> s ! 0 \<and> s ! 0 < t5 then
       (if length s > 3 \<and> cont (s ! 1) \<and> cont (s ! 2) \<and> cont (s ! 3) then
          (let r = push_bit 18 (ucast (s ! 0 AND mask4)) OR push_bit 12 (ucast (s ! 1 AND maskx))
                   OR push_bit 6 (ucast (s ! 2 AND maskx)) OR ucast (s ! 3 AND maskx)
           in if sint rune3Max < sint r \<and> sint r \<le> sint maxRune
              then (r, 4) else (runeError, 1))
        else (runeError, 1))
     else (runeError, 1))"

text \<open>
  \<open>for _, c := range input\<close>: a byte below \<open>runeSelf\<close> is its own rune, any other
  byte goes through \<open>decoderune\<close>. The list of the runes the loop body sees, in order.
\<close>

function range_runes :: "string \<Rightarrow> rune list" where
  "range_runes [] = []"
| "range_runes (c # cs) =
    (if (of_char c :: byte) < runeSelf then ucast (of_char c :: byte) # range_runes cs
     else (case decoderune (map of_char (c # cs)) of
             (r, w) \<Rightarrow> r # range_runes (drop w (c # cs))))"
  by pat_completeness auto
termination
proof (relation "measure length", goal_cases)
  case 1
  show ?case by simp
next
  case (2 c cs)
  show ?case by simp
next
  case prems: (3 c cs r w)
  from prems(2) have "decoderune (map of_char (c # cs)) = (r, w)" by simp
  then have "1 \<le> w"
    unfolding decoderune_def Let_def by (auto split: if_splits)
  then show ?case by simp
qed

subsection \<open>float64\<close>

text \<open>
  A \<open>float64\<close> is a finite real, an infinity or NaN. Every arithmetic operation
  computes the exact real result and rounds it with \<open>rnd\<close>, the rounding of the
  platform (IEEE 754 round-to-nearest for Go), which the model takes as a parameter:
  theorems state what they need of it. Each operation rounds on its own, as the
  compiler emits it for amd64 (Go allows other targets to fuse \<open>x*y + z\<close> into one
  rounding). The special values follow IEEE 754; overflow of a finite result to an
  infinity and the sign of zero are outside the model (the program only ever divides
  by a square root, which is never the negative zero).
\<close>

datatype float64 = Fin real | PosInf | NegInf | NaN

fun fneg :: "float64 \<Rightarrow> float64" where
  "fneg (Fin x) = Fin (- x)"
| "fneg PosInf = NegInf"
| "fneg NegInf = PosInf"
| "fneg NaN = NaN"

fun fadd :: "(real \<Rightarrow> real) \<Rightarrow> float64 \<Rightarrow> float64 \<Rightarrow> float64" where
  "fadd rnd (Fin x) (Fin y) = Fin (rnd (x + y))"
| "fadd rnd NaN _ = NaN"
| "fadd rnd _ NaN = NaN"
| "fadd rnd PosInf NegInf = NaN"
| "fadd rnd NegInf PosInf = NaN"
| "fadd rnd PosInf _ = PosInf"
| "fadd rnd NegInf _ = NegInf"
| "fadd rnd _ PosInf = PosInf"
| "fadd rnd _ NegInf = NegInf"

definition fsub :: "(real \<Rightarrow> real) \<Rightarrow> float64 \<Rightarrow> float64 \<Rightarrow> float64" where
  "fsub rnd a b = fadd rnd a (fneg b)"

definition inf_of_sign :: "bool \<Rightarrow> float64" where
  "inf_of_sign positive = (if positive then PosInf else NegInf)"

fun fmul :: "(real \<Rightarrow> real) \<Rightarrow> float64 \<Rightarrow> float64 \<Rightarrow> float64" where
  "fmul rnd (Fin x) (Fin y) = Fin (rnd (x * y))"
| "fmul rnd NaN _ = NaN"
| "fmul rnd _ NaN = NaN"
| "fmul rnd (Fin x) PosInf = (if x = 0 then NaN else inf_of_sign (0 < x))"
| "fmul rnd (Fin x) NegInf = (if x = 0 then NaN else inf_of_sign (x < 0))"
| "fmul rnd PosInf (Fin y) = (if y = 0 then NaN else inf_of_sign (0 < y))"
| "fmul rnd NegInf (Fin y) = (if y = 0 then NaN else inf_of_sign (y < 0))"
| "fmul rnd PosInf PosInf = PosInf"
| "fmul rnd NegInf NegInf = PosInf"
| "fmul rnd PosInf NegInf = NegInf"
| "fmul rnd NegInf PosInf = NegInf"

fun fdiv :: "(real \<Rightarrow> real) \<Rightarrow> float64 \<Rightarrow> float64 \<Rightarrow> float64" where
  "fdiv rnd (Fin x) (Fin y) =
     (if y = 0 then (if x = 0 then NaN else inf_of_sign (0 < x)) else Fin (rnd (x / y)))"
| "fdiv rnd NaN _ = NaN"
| "fdiv rnd _ NaN = NaN"
| "fdiv rnd (Fin x) PosInf = Fin 0"
| "fdiv rnd (Fin x) NegInf = Fin 0"
| "fdiv rnd PosInf (Fin y) = inf_of_sign (0 \<le> y)"
| "fdiv rnd NegInf (Fin y) = inf_of_sign (y < 0)"
| "fdiv rnd PosInf PosInf = NaN"
| "fdiv rnd PosInf NegInf = NaN"
| "fdiv rnd NegInf PosInf = NaN"
| "fdiv rnd NegInf NegInf = NaN"

text \<open>\<open>math.Sqrt\<close>: NaN for a negative argument, the rounded root otherwise.\<close>

fun fsqrt :: "(real \<Rightarrow> real) \<Rightarrow> float64 \<Rightarrow> float64" where
  "fsqrt rnd (Fin x) = (if x < 0 then NaN else Fin (rnd (sqrt x)))"
| "fsqrt rnd PosInf = PosInf"
| "fsqrt rnd NegInf = NaN"
| "fsqrt rnd NaN = NaN"


subsection \<open>math/rand\<close>

text \<open>
  The pseudo-random generator of the standard library is not part of the repository:
  the model takes it as a parameter. \<open>'s\<close> is the state of a generator;
  \<open>NewSource seed\<close> is the state of \<open>rand.New(rand.NewSource(seed))\<close>,
  \<open>Float64\<close> and \<open>Intn\<close> draw one value and step the state. The package-level
  functions \<open>rand.Float64()\<close> and \<open>rand.Intn(n)\<close> are the same operations on the
  state of the process-wide generator, which the functions that call them take and
  return.
\<close>

record 's math_rand =
  NewSource :: "int64 \<Rightarrow> 's"
  Float64 :: "'s \<Rightarrow> real \<times> 's"
  Intn :: "'s \<Rightarrow> int \<Rightarrow> int \<times> 's"

text \<open>The documented ranges: \<open>Float64\<close> in \<open>[0.0, 1.0)\<close>, \<open>Intn n\<close> in \<open>[0, n)\<close>.\<close>

definition Float64_in_range :: "'s math_rand \<Rightarrow> bool" where
  "Float64_in_range lib = (\<forall>s. 0 \<le> fst (Float64 lib s) \<and> fst (Float64 lib s) < 1)"

definition Intn_in_range :: "'s math_rand \<Rightarrow> bool" where
  "Intn_in_range lib = (\<forall>s n. 0 < n \<longrightarrow> 0 \<le> fst (Intn lib s n) \<and> fst (Intn lib s n) < n)"

section \<open>Helper functions of main.go\<close>

subsection \<open>generateMockEmbedding\<close>

text \<open>The seed loop: \<open>seed = seed*31 + int64(c)\<close> for every rune of the input.\<close>

definition input_seed :: "string \<Rightarrow> int64" where
  "input_seed input = foldl (\<lambda>seed c. seed * 31 + scast c) 0 (range_runes input)"

text \<open>
  The first loop over \<open>embedding\<close>: \<open>embedding[i] = r.Float64()*2 - 1\<close>, for
  \<open>i = 0 .. dimensions - 1\<close>, each draw stepping the generator \<open>r\<close>.
\<close>

fun draw_components :: "'s math_rand \<Rightarrow> (real \<Rightarrow> real) \<Rightarrow> nat \<Rightarrow> 's \<Rightarrow> float64 list" where
  "draw_components lib rnd 0 r = []"
| "draw_components lib rnd (Suc n) r =
     (case Float64 lib r of
        (u, r') \<Rightarrow> fsub rnd (fmul rnd (Fin u) (Fin 2)) (Fin 1) # draw_components lib rnd n r')"

text \<open>The second loop: \<open>sum += v * v\<close>, starting from \<open>0.0\<close>.\<close>

definition sum_squares :: "(real \<Rightarrow> real) \<Rightarrow> float64 list \<Rightarrow> float64" where
  "sum_squares rnd embedding = foldl (\<lambda>sum v. fadd rnd sum (fmul rnd v v)) (Fin 0) embedding"

text \<open>The third loop: \<open>embedding[i] /= magnitude\<close>.\<close>

definition normalize :: "(real \<Rightarrow> real) \<Rightarrow> float64 list \<Rightarrow> float64 list" where
  "normalize rnd embedding =
     (let magnitude = fsqrt rnd (sum_squares rnd embedding)
      in map (\<lambda>v. fdiv rnd v magnitude) embedding)"

text \<open>
  \<open>make([]float64, dimensions)\<close> panics when \<open>dimensions\<close> is negative; the seed
  loop and the construction of the generator run before it.
\<close>

definition generateMockEmbedding ::
  "'s math_rand \<Rightarrow> (real \<Rightarrow> real) \<Rightarrow> string \<Rightarrow> int \<Rightarrow> go_panic + float64 list" where
  "generateMockEmbedding lib rnd input dimensions =
     (let seed = input_seed input;
          r = NewSource lib seed
      in if dimensions < 0 then Inl MakesliceLenOutOfRange
         else Inr (normalize rnd (draw_components lib rnd (nat dimensions) r)))"

subsection \<open>calculateTokens and randomID\<close>

record ChatCompletionMessage =
  Role :: string
  Content :: string

text \<open>\<open>tokens += len(msg.Content) / 4\<close> over the messages, from \<open>tokens := 0\<close>.\<close>

definition calculateTokens :: "ChatCompletionMessage list \<Rightarrow> int" where
  "calculateTokens messages =
     foldl (\<lambda>tokens msg. tokens + int (length (Content msg)) div 4) 0 messages"

definition charset :: string where
  "charset = ''abcdefghijklmnopqrstuvwxyzABCDEFGHIJKLMNOPQRSTUVWXYZ0123456789''"

text \<open>
  The loop of \<open>randomID\<close>: \<open>result[i] = charset[rand.Intn(len(charset))]\<close>, drawing
  from the process-wide generator \<open>g\<close>. Indexing \<open>charset\<close> out of range panics.
\<close>

fun randomID_loop :: "'s math_rand \<Rightarrow> nat \<Rightarrow> 's \<Rightarrow> (go_panic + string) \<times> 's" where
  "randomID_loop lib 0 g = (Inr [], g)"
| "randomID_loop lib (Suc n) g =
     (case Intn lib g (int (length charset)) of
        (k, g') \<Rightarrow>
          if 0 \<le> k \<and> k < int (length charset) then
            (case randomID_loop lib n g' of
               (Inl p, g'') \<Rightarrow> (Inl p, g'')
             | (Inr rest, g'') \<Rightarrow> (Inr (charset ! nat k # rest), g''))
          else (Inl IndexOutOfRange, g'))"

definition randomID :: "'s math_rand \<Rightarrow> int \<Rightarrow> 's \<Rightarrow> (go_panic + string) \<times> 's" where
  "randomID lib len g =
     (if len < 0 then (Inl MakesliceLenOutOfRange, g)
      else randomID_loop lib (nat len) g)"

section \<open>Configuration, requests and responses\<close>

record Models =
  Embedding :: "string list"
  Chat :: "string list"

record Config =
  Port :: int
  MinLatency :: int64
  MaxLatency :: int64
  Models :: Models

text \<open>
  The request structs as \<open>ShouldBindJSON\<close> leaves them: a slice field that the body
  does not set (absent, \<open>null\<close>, or a body that does not parse) is the nil slice,
  \<open>None\<close>; a JSON array, also the empty one, is \<open>Some\<close> list.
\<close>

record ChatCompletionRequest =
  Model :: string
  Messages :: "ChatCompletionMessage list option"

record ChatChoice =
  Index :: int
  Message :: ChatCompletionMessage
  FinishReason :: string

record ChatUsage =
  PromptTokens :: int
  CompletionTokens :: int
  TotalTokens :: int

record ChatCompletionResponse =
  ID :: string
  Object :: string
  Created :: int64
  Model :: string
  Choices :: "ChatChoice list"
  Usage :: ChatUsage

record EmbeddingRequest =
  Model :: string
  Input :: "string list option"

record EmbeddingData =
  Object :: string
  Embedding :: "float64 list"
  Index :: int

record EmbeddingUsage =
  PromptTokens :: int
  TotalTokens :: int

record EmbeddingResponse =
  Object :: string
  Data :: "EmbeddingData list"
  Model :: string
  Usage :: EmbeddingUsage

record ModelData =
  ID :: string
  Object :: string
  Created :: int64
  OwnedBy :: string

record ModelsResponse =
  Object :: string
  Data :: "ModelData list"

text \<open>The object under the key \<open>error\<close> of a 400 response.\<close>

record ErrorObject =
  message :: string
  type :: string
  param :: string
  code :: string

datatype json_body =
    ErrorBody ErrorObject
  | ChatBody ChatCompletionResponse
  | EmbeddingBody EmbeddingResponse
  | ModelsBody ModelsResponse

text \<open>The status and the value that a handler passes to \<open>c.JSON(status, body)\<close>.\<close>

record http_response =
  status :: nat
  body :: json_body

definition StatusOK :: nat where "StatusOK = 200"
definition StatusBadRequest :: nat where "StatusBadRequest = 400"

section \<open>The handlers\<close>

text \<open>
  The loop that sets \<open>modelSupported\<close> in both handlers: it stops at the first entry
  equal to the requested model.
\<close>

fun modelSupported :: "string list \<Rightarrow> string \<Rightarrow> bool" where
  "modelSupported [] requested = False"
| "modelSupported (model # rest) requested =
     (if model = requested then True else modelSupported rest requested)"

text \<open>\<open>fmt.Sprintf("The model '%s' does not exist", req.Model)\<close> and the error map.\<close>

definition model_not_found :: "string \<Rightarrow> http_response" where
  "model_not_found requested =
     \<lparr>status = StatusBadRequest,
      body = ErrorBody
        \<lparr>message = ''The model '' @ [CHR 0x27] @ requested @ [CHR 0x27] @ '' does not exist'',
         type = ''invalid_request_error'',
         param = ''model'',
         code = ''model_not_found''\<rparr>\<rparr>"

text \<open>\<open>if req.Model == "" && len(list) > 0 { req.Model = list[0] }\<close>\<close>

definition default_model :: "string list \<Rightarrow> string \<Rightarrow> string" where
  "default_model list requested =
     (if requested = [] \<and> length list > 0 then list ! 0 else requested)"

text \<open>
  \<open>handleChatCompletions\<close>, given the decoded request, the reading \<open>now\<close> of
  \<open>time.Now().Unix()\<close> and the state \<open>g\<close> of the process-wide generator, which
  \<open>randomID\<close> steps. A panic leaves no response.
\<close>

definition handleChatCompletions ::
  "'s math_rand \<Rightarrow> Config \<Rightarrow> int64 \<Rightarrow> ChatCompletionRequest \<Rightarrow> 's
     \<Rightarrow> (go_panic + http_response) \<times> 's" where
  "handleChatCompletions lib config now req g =
     (if \<not> modelSupported (Models.Chat (Models config)) (ChatCompletionRequest.Model req)
          \<and> ChatCompletionRequest.Model req \<noteq> []
      then (Inr (model_not_found (ChatCompletionRequest.Model req)), g)
      else
        let model = default_model (Models.Chat (Models config)) (ChatCompletionRequest.Model req);
            messages = (case Messages req of
                          None \<Rightarrow> [\<lparr>Role = ''user'', Content = ''Hello''\<rparr>]
                        | Some ms \<Rightarrow> ms)
        in case randomID lib 29 g of
             (Inl p, g') \<Rightarrow> (Inl p, g')
           | (Inr rid, g') \<Rightarrow>
               (Inr \<lparr>status = StatusOK,
                     body = ChatBody
                       \<lparr>ChatCompletionResponse.ID = ''chatcmpl-'' @ rid,
                        Object = ''chat.completion'',
                        Created = now,
                        Model = model,
                        Choices =
                          [\<lparr>ChatChoice.Index = 0,
                            Message =
                              \<lparr>Role = ''assistant'',
                               Content = ''This is a mock response from the OpenAI API emulator. Your request has been processed successfully.''\<rparr>,
                            FinishReason = ''stop''\<rparr>],
                        Usage =
                          \<lparr>ChatUsage.PromptTokens = calculateTokens messages,
                           CompletionTokens = 20,
                           TotalTokens = calculateTokens messages + 20\<rparr>\<rparr>\<rparr>,
                g'))"

text \<open>
  The loop of \<open>handleEmbeddings\<close> over \<open>req.Input\<close>, at index \<open>i\<close>: it stores the
  entry at \<open>response.Data[i]\<close> and adds \<open>len(input) / 4\<close> to both token counts.
\<close>

fun embeddings_loop ::
  "'s math_rand \<Rightarrow> (real \<Rightarrow> real) \<Rightarrow> int \<Rightarrow> string list \<Rightarrow> EmbeddingResponse
     \<Rightarrow> go_panic + EmbeddingResponse" where
  "embeddings_loop lib rnd i [] response = Inr response"
| "embeddings_loop lib rnd i (input # rest) response =
     (case generateMockEmbedding lib rnd input 1536 of
        Inl p \<Rightarrow> Inl p
      | Inr embedding \<Rightarrow>
          if 0 \<le> i \<and> i < int (length (EmbeddingResponse.Data response)) then
            (let tokens = int (length input) div 4;
                 usage = EmbeddingResponse.Usage response
             in embeddings_loop lib rnd (i + 1) rest
                  (response
                    \<lparr>EmbeddingResponse.Data :=
                       (EmbeddingResponse.Data response)
                         [nat i := \<lparr>EmbeddingData.Object = ''embedding'',
                                    Embedding = embedding,
                                    Index = i\<rparr>],
                     EmbeddingResponse.Usage :=
                       \<lparr>EmbeddingUsage.PromptTokens = EmbeddingUsage.PromptTokens usage + tokens,
                        TotalTokens = EmbeddingUsage.TotalTokens usage + tokens\<rparr>\<rparr>))
          else Inl IndexOutOfRange)"

text \<open>
  \<open>handleEmbeddings\<close>: \<open>make\<close> fills \<open>Data\<close> with \<open>len(req.Input)\<close> zero entries
  before the loop. The handler reads neither the clock nor the process-wide generator.
\<close>

definition handleEmbeddings ::
  "'s math_rand \<Rightarrow> (real \<Rightarrow> real) \<Rightarrow> Config \<Rightarrow> EmbeddingRequest \<Rightarrow> go_panic + http_response" where
  "handleEmbeddings lib rnd config req =
     (if \<not> modelSupported (Models.Embedding (Models config)) (EmbeddingRequest.Model req)
          \<and> EmbeddingRequest.Model req \<noteq> []
      then Inr (model_not_found (EmbeddingRequest.Model req))
      else
        let model = default_model (Models.Embedding (Models config)) (EmbeddingRequest.Model req);
            inputs = (case Input req of None \<Rightarrow> [''Default input text''] | Some xs \<Rightarrow> xs);
            response =
              \<lparr>EmbeddingResponse.Object = ''list'',
               Data = replicate (length inputs)
                        \<lparr>EmbeddingData.Object = [], Embedding = [], Index = 0\<rparr>,
               Model = model,
               Usage = \<lparr>EmbeddingUsage.PromptTokens = 0, TotalTokens = 0\<rparr>\<rparr>
        in case embeddings_loop lib rnd 0 inputs response of
             Inl p \<Rightarrow> Inl p
           | Inr response' \<Rightarrow> Inr \<lparr>status = StatusOK, body = EmbeddingBody response'\<rparr>)"



section \<open>The latency middleware and the router\<close>






text \<open>
  \<open>setupRouter\<close>: every request passes the middleware, then its handler. The result
  is the delay, the handler's outcome and the state of the process-wide generator.
\<close>

datatype request =
    PostChatCompletions ChatCompletionRequest
  | PostEmbeddings EmbeddingRequest
  | GetModels


section \<open>The specification's seed, and auxiliary definitions\<close>



text \<open>
  The entry that the loop of \<open>handleEmbeddings\<close> stores at index \<open>i\<close> for the input
  \<open>x\<close>, the entries for a list of inputs from index \<open>i\<close> on, and the tokens the loop
  adds up for them.
\<close>

definition embedding_entry :: "'s math_rand \<Rightarrow> (real \<Rightarrow> real) \<Rightarrow> nat \<Rightarrow> string \<Rightarrow> EmbeddingData" where
  "embedding_entry lib rnd i x =
     \<lparr>EmbeddingData.Object = ''embedding'',
      Embedding = normalize rnd (draw_components lib rnd 1536 (NewSource lib (input_seed x))),
      Index = int i\<rparr>"

fun embedding_entries :: "'s math_rand \<Rightarrow> (real \<Rightarrow> real) \<Rightarrow> nat \<Rightarrow> string list \<Rightarrow> EmbeddingData list" where
  "embedding_entries lib rnd i [] = []"
| "embedding_entries lib rnd i (x # xs) = embedding_entry lib rnd i x # embedding_entries lib rnd (Suc i) xs"

definition input_tokens :: "string list \<Rightarrow> int" where
  "input_tokens xs = sum_list (map (\<lambda>x. int (length x) div 4) xs)"

text \<open>
  A concrete generator and a concrete configuration (the defaults of \<open>main\<close>), to
  instantiate the theorems: the state of the generator is a counter that starts at the
  seed, \<open>Float64\<close> cycles through \<open>0, 1/4, 1/2, 3/4\<close> and \<open>Intn n\<close> through
  \<open>0 .. n-1\<close>.
\<close>

definition counter_rand :: "nat math_rand" where
  "counter_rand =
     \<lparr>NewSource = (\<lambda>seed. unat seed),
      Float64 = (\<lambda>s. (real (s mod 4) / 4, Suc s)),
      Intn = (\<lambda>s n. (int s mod n, Suc s))\<rparr>"

definition config0 :: Config where
  "config0 = \<lparr>Port = 8080, MinLatency = 0, MaxLatency = 0,
     Models = \<lparr>Models.Embedding = [''text-embedding-ada-002''], Chat = [''gpt-3.5-turbo'', ''gpt-4'']\<rparr>\<rparr>"

text \<open>
  The successive values that \<open>n\<close> calls of \<open>Float64\<close> draw from the generator
  state \<open>r\<close>: the \<open>u\<close> of the first loop of \<open>generateMockEmbedding\<close>.
\<close>

fun draws :: "'s math_rand \<Rightarrow> nat \<Rightarrow> 's \<Rightarrow> real list" where
  "draws lib 0 r = []"
| "draws lib (Suc n) r = (case Float64 lib r of (u, r') \<Rightarrow> u # draws lib n r')"

text \<open>
  What a theorem may ask of the rounding: \<open>relative_error rnd eps\<close> is the standard
  model of floating-point arithmetic, every rounded result is within the relative
  error \<open>eps\<close> of the exact one (\<open>eps = 2^-53\<close> for binary64, away from underflow).
  \<open>sum_sq\<close> is the exact sum of the squares of a vector (its Euclidean norm is the
  square root), \<open>rounded_sum_sq\<close> the sum as the second loop of
  \<open>generateMockEmbedding\<close> computes it, rounding after every operation.
\<close>

definition relative_error :: "(real \<Rightarrow> real) \<Rightarrow> real \<Rightarrow> bool" where
  "relative_error rnd eps = (0 \<le> eps \<and> (\<forall>x. \<bar>rnd x - x\<bar> \<le> eps * \<bar>x\<bar>))"

definition sum_sq :: "real list \<Rightarrow> real" where
  "sum_sq vs = sum_list (map (\<lambda>v. v * v) vs)"

definition rounded_sum_sq :: "(real \<Rightarrow> real) \<Rightarrow> real list \<Rightarrow> real" where
  "rounded_sum_sq rnd vs = foldl (\<lambda>s v. rnd (s + rnd (v * v))) 0 vs"


definition inflating_rnd :: "real \<Rightarrow> real" where
  "inflating_rnd x = x + x / 1024"


section \<open>Auxiliary lemmas\<close>

text \<open>
  The runes of a string: an ASCII string yields its bytes, a valid multi-byte sequence
  its code point (U+00E9, U+20AC, U+1F600 below), an invalid byte U+FFFD.
\<close>

lemma range_runes_ascii:
  "(\<forall>c \<in> set s. (of_char c :: byte) < 0x80) \<Longrightarrow>
   range_runes s = map (\<lambda>c. ucast (of_char c :: byte)) s"
  by (induction s) (simp_all add: runeSelf_def)

lemma range_runes_two_bytes: "range_runes [CHR 0xC3, CHR 0xA9] = [0xE9]"
  by (simp add: runeSelf_def decoderune_def t2_def t3_def cont_def locb_def hicb_def
      mask2_def maskx_def rune1Max_def)

lemma range_runes_three_bytes: "range_runes [CHR 0xE2, CHR 0x82, CHR 0xAC] = [0x20AC]"
  by (simp add: runeSelf_def decoderune_def t2_def t3_def t4_def cont_def locb_def hicb_def
      mask3_def maskx_def rune2Max_def surrogateMin_def surrogateMax_def)

lemma range_runes_four_bytes: "range_runes [CHR 0xF0, CHR 0x9F, CHR 0x98, CHR 0x80] = [0x1F600]"
  by (simp add: runeSelf_def decoderune_def t2_def t3_def t4_def t5_def cont_def locb_def
      hicb_def mask4_def maskx_def rune3Max_def maxRune_def)

lemma range_runes_invalid: "range_runes [CHR 0xFF, CHR ''A''] = [0xFFFD, 0x41]"
  by (simp add: runeSelf_def decoderune_def t2_def t3_def t4_def t5_def runeError_def)





lemma generateMockEmbedding_1536:
  "generateMockEmbedding lib rnd x 1536
     = Inr (normalize rnd (draw_components lib rnd 1536 (NewSource lib (input_seed x))))"
  by (simp add: generateMockEmbedding_def)

lemma length_draw_components [simp]: "length (draw_components lib rnd n r) = n"
  by (induction n arbitrary: r) (auto split: prod.splits)

lemma length_normalize [simp]: "length (normalize rnd xs) = length xs"
  by (simp add: normalize_def Let_def)

lemma embeddings_loop_result:
  "k + length xs \<le> length (EmbeddingResponse.Data resp) \<Longrightarrow>
   embeddings_loop lib rnd (int k) xs resp =
     Inr (resp\<lparr>EmbeddingResponse.Data :=
                 take k (EmbeddingResponse.Data resp)
                 @ embedding_entries lib rnd k xs
                 @ drop (k + length xs) (EmbeddingResponse.Data resp),
               EmbeddingResponse.Usage :=
                 \<lparr>EmbeddingUsage.PromptTokens =
                    EmbeddingUsage.PromptTokens (EmbeddingResponse.Usage resp) + input_tokens xs,
                  TotalTokens =
                    EmbeddingUsage.TotalTokens (EmbeddingResponse.Usage resp) + input_tokens xs\<rparr>\<rparr>)"
proof (induction xs arbitrary: k resp)
  case Nil
  show ?case by (simp add: input_tokens_def)
next
  case (Cons x xs)
  let ?ds = "EmbeddingResponse.Data resp"
  let ?e = "embedding_entry lib rnd k x"
  let ?u = "\<lparr>EmbeddingUsage.PromptTokens =
               EmbeddingUsage.PromptTokens (EmbeddingResponse.Usage resp) + int (length x) div 4,
             TotalTokens =
               EmbeddingUsage.TotalTokens (EmbeddingResponse.Usage resp) + int (length x) div 4\<rparr>"
  let ?resp = "resp\<lparr>EmbeddingResponse.Data := ?ds[k := ?e], EmbeddingResponse.Usage := ?u\<rparr>"
  from Cons.prems have k: "k < length ?ds" and le: "Suc k + length xs \<le> length ?ds" by simp_all
  have step: "embeddings_loop lib rnd (int k) (x # xs) resp
                = embeddings_loop lib rnd (int (Suc k)) xs ?resp"
    using k by (simp add: generateMockEmbedding_1536 embedding_entry_def Let_def add.commute)
  have le': "Suc k + length xs \<le> length (EmbeddingResponse.Data ?resp)" using le by simp
  have tk: "take (Suc k) (?ds[k := ?e]) = take k ?ds @ [?e]"
    using k by (simp add: take_Suc_conv_app_nth)
  have dr: "drop (Suc k + length xs) (?ds[k := ?e]) = drop (Suc k + length xs) ?ds"
    by simp
  show ?case
    unfolding step Cons.IH [OF le']
    by (simp add: tk dr input_tokens_def)
qed

lemma modelSupported_iff: "modelSupported list m \<longleftrightarrow> m \<in> set list"
  by (induction list) auto

lemma calculateTokens_foldl:
  "foldl (\<lambda>tokens msg. tokens + int (length (Content msg)) div 4) a ms
     = a + sum_list (map (\<lambda>msg. int (length (Content msg)) div 4) ms)"
  by (induction ms arbitrary: a) simp_all

lemma calculateTokens_sum:
  "calculateTokens ms = sum_list (map (\<lambda>msg. int (length (Content msg)) div 4) ms)"
  by (simp add: calculateTokens_def calculateTokens_foldl)

lemma randomID_loop_ok:
  "Intn_in_range lib \<Longrightarrow> \<exists>rid g'. randomID_loop lib n g = (Inr rid, g') \<and> length rid = n"
proof (induction n arbitrary: g)
  case 0
  show ?case by simp
next
  case (Suc n)
  obtain k g1 where d: "Intn lib g (int (length charset)) = (k, g1)" by (cases "Intn lib g (int (length charset))")
  have "0 < int (length charset)" by (simp add: charset_def)
  with Suc.prems have "0 \<le> fst (Intn lib g (int (length charset))) \<and> fst (Intn lib g (int (length charset))) < int (length charset)"
    unfolding Intn_in_range_def by blast
  with d have k: "0 \<le> k" "k < int (length charset)" by simp_all
  from Suc.IH [OF Suc.prems, of g1] obtain rid g2 where
    r: "randomID_loop lib n g1 = (Inr rid, g2)" "length rid = n" by blast
  show ?case using d k r by simp
qed

lemma randomID_ok:
  "Intn_in_range lib \<Longrightarrow> \<exists>rid g'. randomID lib 29 g = (Inr rid, g') \<and> length rid = 29"
  using randomID_loop_ok [of lib 29 g] by (simp add: randomID_def)

lemma handleChatCompletions_rejects:
  "ChatCompletionRequest.Model req \<noteq> [] \<Longrightarrow>
   ChatCompletionRequest.Model req \<notin> set (Models.Chat (Models config)) \<Longrightarrow>
   handleChatCompletions lib config now req g
     = (Inr (model_not_found (ChatCompletionRequest.Model req)), g)"
  by (simp add: handleChatCompletions_def modelSupported_iff)

lemma handleChatCompletions_accepts:
  assumes "ChatCompletionRequest.Model req = [] \<or>
           ChatCompletionRequest.Model req \<in> set (Models.Chat (Models config))"
  shows "handleChatCompletions lib config now req g =
    (case randomID lib 29 g of
       (Inl p, g') \<Rightarrow> (Inl p, g')
     | (Inr rid, g') \<Rightarrow>
        (Inr \<lparr>status = StatusOK,
              body = ChatBody
                \<lparr>ChatCompletionResponse.ID = ''chatcmpl-'' @ rid,
                 Object = ''chat.completion'',
                 Created = now,
                 Model = default_model (Models.Chat (Models config)) (ChatCompletionRequest.Model req),
                 Choices =
                   [\<lparr>ChatChoice.Index = 0,
                     Message =
                       \<lparr>Role = ''assistant'',
                        Content = ''This is a mock response from the OpenAI API emulator. Your request has been processed successfully.''\<rparr>,
                     FinishReason = ''stop''\<rparr>],
                 Usage =
                   \<lparr>ChatUsage.PromptTokens = calculateTokens
                       (case Messages req of None \<Rightarrow> [\<lparr>Role = ''user'', Content = ''Hello''\<rparr>] | Some ms \<Rightarrow> ms),
                    CompletionTokens = 20,
                    TotalTokens = calculateTokens
                       (case Messages req of None \<Rightarrow> [\<lparr>Role = ''user'', Content = ''Hello''\<rparr>] | Some ms \<Rightarrow> ms) + 20\<rparr>\<rparr>\<rparr>,
         g'))"
  using assms by (auto simp add: handleChatCompletions_def modelSupported_iff Let_def)

lemma handleEmbeddings_rejects:
  "EmbeddingRequest.Model req \<noteq> [] \<Longrightarrow>
   EmbeddingRequest.Model req \<notin> set (Models.Embedding (Models config)) \<Longrightarrow>
   handleEmbeddings lib rnd config req = Inr (model_not_found (EmbeddingRequest.Model req))"
  by (simp add: handleEmbeddings_def modelSupported_iff)

lemma handleEmbeddings_accepts:
  assumes "EmbeddingRequest.Model req = [] \<or>
           EmbeddingRequest.Model req \<in> set (Models.Embedding (Models config))"
  shows "handleEmbeddings lib rnd config req =
    Inr \<lparr>status = StatusOK,
         body = EmbeddingBody
           \<lparr>EmbeddingResponse.Object = ''list'',
            Data = embedding_entries lib rnd 0
                     (case Input req of None \<Rightarrow> [''Default input text''] | Some xs \<Rightarrow> xs),
            Model = default_model (Models.Embedding (Models config)) (EmbeddingRequest.Model req),
            Usage =
              \<lparr>EmbeddingUsage.PromptTokens =
                 input_tokens (case Input req of None \<Rightarrow> [''Default input text''] | Some xs \<Rightarrow> xs),
               TotalTokens =
                 input_tokens (case Input req of None \<Rightarrow> [''Default input text''] | Some xs \<Rightarrow> xs)\<rparr>\<rparr>\<rparr>"
proof -
  let ?inputs = "case Input req of None \<Rightarrow> [''Default input text''] | Some xs \<Rightarrow> xs"
  let ?r0 = "\<lparr>EmbeddingResponse.Object = ''list'',
               Data = replicate (length ?inputs)
                        \<lparr>EmbeddingData.Object = [], Embedding = [], Index = 0\<rparr>,
               Model = default_model (Models.Embedding (Models config)) (EmbeddingRequest.Model req),
               Usage = \<lparr>EmbeddingUsage.PromptTokens = 0, TotalTokens = 0\<rparr>\<rparr>"
  have "embeddings_loop lib rnd (int 0) ?inputs ?r0 = Inr (?r0
          \<lparr>EmbeddingResponse.Data := take 0 (EmbeddingResponse.Data ?r0)
                 @ embedding_entries lib rnd 0 ?inputs
                 @ drop (0 + length ?inputs) (EmbeddingResponse.Data ?r0),
               EmbeddingResponse.Usage :=
                 \<lparr>EmbeddingUsage.PromptTokens =
                    EmbeddingUsage.PromptTokens (EmbeddingResponse.Usage ?r0) + input_tokens ?inputs,
                  TotalTokens =
                    EmbeddingUsage.TotalTokens (EmbeddingResponse.Usage ?r0) + input_tokens ?inputs\<rparr>\<rparr>)"
    by (rule embeddings_loop_result) simp
  then have "embeddings_loop lib rnd 0 ?inputs ?r0 = Inr
          \<lparr>EmbeddingResponse.Object = ''list'',
            Data = embedding_entries lib rnd 0 ?inputs,
            Model = default_model (Models.Embedding (Models config)) (EmbeddingRequest.Model req),
            Usage = \<lparr>EmbeddingUsage.PromptTokens = input_tokens ?inputs,
               TotalTokens = input_tokens ?inputs\<rparr>\<rparr>"
    by simp
  then show ?thesis
    using assms by (auto simp add: handleEmbeddings_def modelSupported_iff Let_def)
qed

lemma embedding_entries_length [simp]: "length (embedding_entries lib rnd i xs) = length xs"
  by (induction xs arbitrary: i) simp_all

lemma embedding_entries_dim:
  "d \<in> set (embedding_entries lib rnd i xs) \<Longrightarrow> length (Embedding d) = 1536"
  by (induction xs arbitrary: i) (auto simp: embedding_entry_def)

lemma Intn_in_range_counter_rand: "Intn_in_range counter_rand"
  by (simp add: Intn_in_range_def counter_rand_def)

lemma Float64_in_range_counter_rand: "Float64_in_range counter_rand"
  by (simp add: Float64_in_range_def counter_rand_def)

lemma draw_components_draws:
  "draw_components lib rnd n r = map (\<lambda>u. Fin (rnd (rnd (u * 2) - 1))) (draws lib n r)"
  by (induction n arbitrary: r) (auto simp: fsub_def split: prod.splits)




lemma relative_error_nonneg:
  assumes "relative_error rnd eps" "0 \<le> x"
  shows "(1 - eps) * x \<le> rnd x" "rnd x \<le> (1 + eps) * x"
proof -
  from assms(1) have "\<bar>rnd x - x\<bar> \<le> eps * \<bar>x\<bar>" unfolding relative_error_def by blast
  with assms(2) have "\<bar>rnd x - x\<bar> \<le> eps * x" by simp
  then show "(1 - eps) * x \<le> rnd x" "rnd x \<le> (1 + eps) * x"
    by (simp_all add: algebra_simps abs_le_iff)
qed

lemma relative_error_abs:
  assumes "relative_error rnd eps"
  shows "(1 - eps) * \<bar>x\<bar> \<le> \<bar>rnd x\<bar>" "\<bar>rnd x\<bar> \<le> (1 + eps) * \<bar>x\<bar>"
proof -
  from assms have h: "\<bar>rnd x - x\<bar> \<le> eps * \<bar>x\<bar>" unfolding relative_error_def by blast
  have "\<bar>x\<bar> - \<bar>rnd x - x\<bar> \<le> \<bar>rnd x\<bar>" by linarith
  with h show "(1 - eps) * \<bar>x\<bar> \<le> \<bar>rnd x\<bar>"
    by (simp add: left_diff_distrib)
  have "\<bar>rnd x\<bar> \<le> \<bar>x\<bar> + \<bar>rnd x - x\<bar>" by linarith
  with h show "\<bar>rnd x\<bar> \<le> (1 + eps) * \<bar>x\<bar>"
    by (simp add: distrib_right)
qed

lemma relative_error_sq:
  assumes r: "relative_error rnd eps" and e: "eps \<le> 1"
  shows "(1 - eps)\<^sup>2 * (x * x) \<le> rnd x * rnd x" "rnd x * rnd x \<le> (1 + eps)\<^sup>2 * (x * x)"
proof -
  have e0: "0 \<le> eps" using r by (simp add: relative_error_def)
  have lo: "0 \<le> (1 - eps) * \<bar>x\<bar>" using e by simp
  have "((1 - eps) * \<bar>x\<bar>)\<^sup>2 \<le> \<bar>rnd x\<bar>\<^sup>2"
    using relative_error_abs(1) [OF r, of x] lo by (rule_tac power_mono) simp_all
  then show "(1 - eps)\<^sup>2 * (x * x) \<le> rnd x * rnd x"
    by (simp add: power2_eq_square algebra_simps)
  have "\<bar>rnd x\<bar>\<^sup>2 \<le> ((1 + eps) * \<bar>x\<bar>)\<^sup>2"
    using relative_error_abs(2) [OF r, of x] by (rule_tac power_mono) simp_all
  then show "rnd x * rnd x \<le> (1 + eps)\<^sup>2 * (x * x)"
    by (simp add: power2_eq_square algebra_simps)
qed

lemma sum_sq_nonneg: "0 \<le> sum_sq vs"
  by (induction vs) (simp_all add: sum_sq_def)

lemma sum_sq_snoc: "sum_sq (vs @ [v]) = sum_sq vs + v * v"
  by (simp add: sum_sq_def)

lemma rounded_sum_sq_snoc:
  "rounded_sum_sq rnd (vs @ [v]) = rnd (rounded_sum_sq rnd vs + rnd (v * v))"
  by (simp add: rounded_sum_sq_def)

lemma rounded_sum_sq_bounds:
  assumes r: "relative_error rnd eps" and e: "eps \<le> 1"
  shows "(1 - eps) ^ Suc (length vs) * sum_sq vs \<le> rounded_sum_sq rnd vs
         \<and> rounded_sum_sq rnd vs \<le> (1 + eps) ^ Suc (length vs) * sum_sq vs"
proof (induction vs rule: rev_induct)
  case Nil
  show ?case by (simp add: sum_sq_def rounded_sum_sq_def)
next
  case (snoc v vs)
  have e0: "0 \<le> eps" using r by (simp add: relative_error_def)
  let ?n = "Suc (length vs)"
  let ?s = "rounded_sum_sq rnd vs"
  let ?S = "sum_sq vs"
  have a0: "0 \<le> 1 - eps" and a1: "1 - eps \<le> 1" and b1: "1 \<le> 1 + eps" using e e0 by simp_all
  have S0: "0 \<le> ?S" by (rule sum_sq_nonneg)
  have v0: "0 \<le> v * v" by simp
  have s0: "0 \<le> ?s"
  proof -
    have "0 \<le> (1 - eps) ^ ?n * ?S" using a0 S0 by simp
    with snoc.IH show ?thesis by linarith
  qed
  have q0: "0 \<le> rnd (v * v)"
  proof -
    have "0 \<le> (1 - eps) * (v * v)" using a0 by simp
    with relative_error_nonneg(1) [OF r v0] show ?thesis by linarith
  qed
  have t0: "0 \<le> ?s + rnd (v * v)" using s0 q0 by simp
  have pa: "(1 - eps) ^ ?n \<le> 1 - eps"
    using power_decreasing [of 1 ?n "1 - eps"] a0 a1 by simp
  have pb: "1 + eps \<le> (1 + eps) ^ ?n"
    using power_increasing [of 1 ?n "1 + eps"] b1 by simp
  have lower: "(1 - eps) ^ Suc ?n * (?S + v * v) \<le> rnd (?s + rnd (v * v))"
  proof -
    have "(1 - eps) ^ ?n * (?S + v * v) = (1 - eps) ^ ?n * ?S + (1 - eps) ^ ?n * (v * v)"
      by (simp add: algebra_simps)
    also have "\<dots> \<le> ?s + (1 - eps) * (v * v)"
      using snoc.IH mult_right_mono [OF pa v0] by linarith
    also have "\<dots> \<le> ?s + rnd (v * v)"
      using relative_error_nonneg(1) [OF r v0] by simp
    finally have "(1 - eps) * ((1 - eps) ^ ?n * (?S + v * v)) \<le> (1 - eps) * (?s + rnd (v * v))"
      using a0 by (rule mult_left_mono)
    also have "\<dots> \<le> rnd (?s + rnd (v * v))"
      by (rule relative_error_nonneg(1) [OF r t0])
    finally show ?thesis by (simp add: mult.assoc)
  qed
  have upper: "rnd (?s + rnd (v * v)) \<le> (1 + eps) ^ Suc ?n * (?S + v * v)"
  proof -
    have "?s + rnd (v * v) \<le> (1 + eps) ^ ?n * ?S + (1 + eps) * (v * v)"
      using snoc.IH relative_error_nonneg(2) [OF r v0] by linarith
    also have "\<dots> \<le> (1 + eps) ^ ?n * ?S + (1 + eps) ^ ?n * (v * v)"
      using mult_right_mono [OF pb v0] by linarith
    also have "\<dots> = (1 + eps) ^ ?n * (?S + v * v)" by (simp add: algebra_simps)
    finally have "(1 + eps) * (?s + rnd (v * v)) \<le> (1 + eps) * ((1 + eps) ^ ?n * (?S + v * v))"
      using b1 by (intro mult_left_mono) simp_all
    with relative_error_nonneg(2) [OF r t0]
    show ?thesis by (simp add: mult.assoc)
  qed
  show ?case
    using lower upper by (simp add: sum_sq_snoc rounded_sum_sq_snoc)
qed

lemma sum_sq_map_bounds:
  assumes "\<And>v. v \<in> set vs \<Longrightarrow> lo * (v * v) \<le> f v * f v \<and> f v * f v \<le> hi * (v * v)"
  shows "lo * sum_sq vs \<le> sum_sq (map f vs)" "sum_sq (map f vs) \<le> hi * sum_sq vs"
proof -
  have "(\<Sum>v\<leftarrow>vs. lo * (v * v)) \<le> (\<Sum>v\<leftarrow>vs. f v * f v)"
    by (rule sum_list_mono) (simp add: assms)
  then show "lo * sum_sq vs \<le> sum_sq (map f vs)"
    by (simp add: sum_sq_def sum_list_const_mult comp_def)
  have "(\<Sum>v\<leftarrow>vs. f v * f v) \<le> (\<Sum>v\<leftarrow>vs. hi * (v * v))"
    by (rule sum_list_mono) (simp add: assms)
  then show "sum_sq (map f vs) \<le> hi * sum_sq vs"
    by (simp add: sum_sq_def sum_list_const_mult comp_def)
qed

lemma normalized_sum_sq_bounds:
  assumes r: "relative_error rnd eps" and e: "eps < 1" and pos: "0 < sum_sq vs"
    and mag: "mag = rnd (sqrt (rounded_sum_sq rnd vs))"
  shows "0 < mag"
    and "(1 - eps)\<^sup>2 / (1 + eps) ^ (length vs + 3) \<le> sum_sq (map (\<lambda>v. rnd (v / mag)) vs)"
    and "sum_sq (map (\<lambda>v. rnd (v / mag)) vs) \<le> (1 + eps)\<^sup>2 / (1 - eps) ^ (length vs + 3)"
proof -
  let ?n = "length vs"
  let ?s = "rounded_sum_sq rnd vs"
  let ?S = "sum_sq vs"
  let ?a = "1 - eps"
  let ?b = "1 + eps"
  have e0: "0 \<le> eps" using r by (simp add: relative_error_def)
  have a0: "0 < ?a" and b0: "0 < ?b" using e e0 by simp_all
  from rounded_sum_sq_bounds [OF r, of vs] e
  have sl: "?a ^ Suc ?n * ?S \<le> ?s" and su: "?s \<le> ?b ^ Suc ?n * ?S" by simp_all
  have "0 < ?a ^ Suc ?n * ?S" using a0 pos by simp
  with sl have s0: "0 < ?s" by linarith
  then have q0: "0 < sqrt ?s" by simp
  have ml: "?a * sqrt ?s \<le> mag" and mu: "mag \<le> ?b * sqrt ?s"
    using relative_error_nonneg [OF r, of "sqrt ?s"] q0 mag by simp_all
  have "0 < ?a * sqrt ?s" using a0 q0 by simp
  with ml show m0: "0 < mag" by linarith
  have "(?a * sqrt ?s)\<^sup>2 \<le> mag\<^sup>2"
    using ml a0 q0 by (intro power_mono) simp_all
  then have m2l: "?a\<^sup>2 * ?s \<le> mag\<^sup>2" using s0 by (simp add: power_mult_distrib)
  have "mag\<^sup>2 \<le> (?b * sqrt ?s)\<^sup>2"
    using mu m0 by (intro power_mono) simp_all
  then have m2u: "mag\<^sup>2 \<le> ?b\<^sup>2 * ?s" using s0 by (simp add: power_mult_distrib)
  have lowm: "?a ^ (?n + 3) * ?S \<le> mag\<^sup>2"
  proof -
    have "?a\<^sup>2 * (?a ^ Suc ?n * ?S) \<le> ?a\<^sup>2 * ?s"
      using sl by (intro mult_left_mono) simp_all
    also note m2l
    finally show ?thesis by (simp add: power_add power2_eq_square power3_eq_cube algebra_simps)
  qed
  have uppm: "mag\<^sup>2 \<le> ?b ^ (?n + 3) * ?S"
  proof -
    note m2u
    also have "?b\<^sup>2 * ?s \<le> ?b\<^sup>2 * (?b ^ Suc ?n * ?S)"
      using su by (intro mult_left_mono) simp_all
    finally show ?thesis by (simp add: power_add power2_eq_square power3_eq_cube algebra_simps)
  qed
  have m20: "0 < mag\<^sup>2" using m0 by simp
  have each: "?a\<^sup>2 * (x * x) \<le> rnd x * rnd x \<and> rnd x * rnd x \<le> ?b\<^sup>2 * (x * x)" for x
    using relative_error_sq [OF r, of x] e by simp
  have scaled: "sum_sq (map (\<lambda>v. v / mag) vs) = ?S / mag\<^sup>2"
    by (simp add: sum_sq_def comp_def power2_eq_square sum_list_mult_const [symmetric]
        sum_list_const_mult [symmetric] divide_inverse algebra_simps)
  have comp: "map (\<lambda>v. rnd (v / mag)) vs = map rnd (map (\<lambda>v. v / mag) vs)"
    by (simp add: comp_def)
  have "?a\<^sup>2 * sum_sq (map (\<lambda>v. v / mag) vs) \<le> sum_sq (map rnd (map (\<lambda>v. v / mag) vs))"
    by (rule sum_sq_map_bounds(1) [where hi = "?b\<^sup>2"]) (rule each)
  then have lo: "?a\<^sup>2 * (?S / mag\<^sup>2) \<le> sum_sq (map (\<lambda>v. rnd (v / mag)) vs)"
    by (simp only: scaled comp)
  have "sum_sq (map rnd (map (\<lambda>v. v / mag) vs)) \<le> ?b\<^sup>2 * sum_sq (map (\<lambda>v. v / mag) vs)"
    by (rule sum_sq_map_bounds(2) [where lo = "?a\<^sup>2"]) (rule each)
  then have hi: "sum_sq (map (\<lambda>v. rnd (v / mag)) vs) \<le> ?b\<^sup>2 * (?S / mag\<^sup>2)"
    by (simp only: scaled comp)
  have r1: "1 / ?b ^ (?n + 3) \<le> ?S / mag\<^sup>2"
  proof -
    have "mag\<^sup>2 \<le> ?S * ?b ^ (?n + 3)" using uppm by (simp add: mult.commute)
    then have "mag\<^sup>2 / ?b ^ (?n + 3) \<le> ?S" using b0 by (simp add: pos_divide_le_eq)
    then show ?thesis using m20 b0 by (simp add: field_simps)
  qed
  have r2: "?S / mag\<^sup>2 \<le> 1 / ?a ^ (?n + 3)"
  proof -
    have "?S * ?a ^ (?n + 3) \<le> mag\<^sup>2" using lowm by (simp add: mult.commute)
    then show ?thesis using m20 a0 by (simp add: field_simps)
  qed
  have "?a\<^sup>2 * (1 / ?b ^ (?n + 3)) \<le> ?a\<^sup>2 * (?S / mag\<^sup>2)"
    using r1 by (intro mult_left_mono) simp_all
  with lo show "?a\<^sup>2 / ?b ^ (?n + 3) \<le> sum_sq (map (\<lambda>v. rnd (v / mag)) vs)"
    by simp
  have "?b\<^sup>2 * (?S / mag\<^sup>2) \<le> ?b\<^sup>2 * (1 / ?a ^ (?n + 3))"
    using r2 by (intro mult_left_mono) simp_all
  with hi show "sum_sq (map (\<lambda>v. rnd (v / mag)) vs) \<le> ?b\<^sup>2 / ?a ^ (?n + 3)"
    by simp
qed

lemma tolerance_bounds:
  assumes e0: "0 \<le> eps" and t: "(real k + 2) * eps < 1"
  shows "1 - (real k + 2) * eps \<le> (1 - eps)\<^sup>2 / (1 + eps) ^ k"
    and "(1 + eps)\<^sup>2 / (1 - eps) ^ k \<le> 1 / (1 - (real k + 2) * eps)"
proof -
  let ?a = "1 - eps" and ?b = "1 + eps"
  have "eps \<le> (real k + 2) * eps" using e0 by (simp add: algebra_simps)
  with t have e1: "eps < 1" by linarith
  have a0: "0 < ?a" and b0: "0 < ?b" using e0 e1 by simp_all
  have ab: "?a * ?b \<le> 1"
  proof -
    have "?a * ?b = 1 - eps * eps" by (simp add: algebra_simps)
    then show ?thesis by simp
  qed
  have abk: "?a ^ m * ?b ^ m \<le> 1" for m
  proof -
    have "(?a * ?b) ^ m \<le> 1 ^ m" using ab a0 b0 by (intro power_mono) simp_all
    then show ?thesis by (simp add: power_mult_distrib)
  qed
  have bern: "1 - (real k + 2) * eps \<le> ?a ^ (k + 2)"
    using Bernoulli_inequality [of "- eps" "k + 2"] e1 by (simp add: algebra_simps)
  have pos: "0 < 1 - (real k + 2) * eps" using t by simp
  have "?a ^ (k + 2) = ?a\<^sup>2 * ?a ^ k" by (simp only: power_add mult.commute)
  also have "\<dots> \<le> ?a\<^sup>2 * (1 / ?b ^ k)"
  proof (intro mult_left_mono)
    show "?a ^ k \<le> 1 / ?b ^ k" using abk [of k] b0 by (simp add: pos_le_divide_eq)
  qed simp
  finally have "?a ^ (k + 2) \<le> ?a\<^sup>2 / ?b ^ k" by simp
  with bern show "1 - (real k + 2) * eps \<le> ?a\<^sup>2 / ?b ^ k" by linarith
  have "?b\<^sup>2 / ?a ^ k \<le> (1 / ?a\<^sup>2) / ?a ^ k"
  proof (intro divide_right_mono)
    show "?b\<^sup>2 \<le> 1 / ?a\<^sup>2" using abk [of 2] a0 by (simp add: pos_le_divide_eq mult.commute)
    show "0 \<le> ?a ^ k" using a0 by simp
  qed
  also have "\<dots> = 1 / ?a ^ (k + 2)" by (simp only: power_add divide_divide_eq_left mult.commute)
  also have "\<dots> \<le> 1 / (1 - (real k + 2) * eps)"
    using bern pos by (intro divide_left_mono) simp_all
  finally show "?b\<^sup>2 / ?a ^ k \<le> 1 / (1 - (real k + 2) * eps)" .
qed

lemma sqrt_between:
  assumes "0 < lo" "lo \<le> 1" "lo \<le> N" "N \<le> 1 / lo"
  shows "lo \<le> sqrt N" "sqrt N \<le> 1 / lo"
proof -
  have "lo\<^sup>2 \<le> lo" using assms(1,2) by (simp add: power2_eq_square mult_left_le)
  with assms(3) have "lo\<^sup>2 \<le> N" by linarith
  then show "lo \<le> sqrt N" by (rule real_le_rsqrt)
  have h1: "1 \<le> 1 / lo" using assms(1,2) by simp
  have "1 * (1 / lo) \<le> (1 / lo) * (1 / lo)"
    using h1 assms(1) by (intro mult_right_mono) simp_all
  then have "1 / lo \<le> (1 / lo)\<^sup>2"
    by (simp only: power2_eq_square mult_1)
  with assms(4) have "N \<le> (1 / lo)\<^sup>2" by linarith
  moreover have "0 \<le> 1 / lo" using assms(1) by simp
  ultimately show "sqrt N \<le> 1 / lo" by (intro real_le_lsqrt) simp_all
qed


lemma relative_error_inflating_rnd: "relative_error inflating_rnd (1 / 1024)"
  by (simp add: relative_error_def inflating_rnd_def)

lemma sum_squares_foldl_Fin:
  "foldl (\<lambda>sum v. fadd rnd sum (fmul rnd v v)) (Fin a) (map Fin vs)
     = Fin (foldl (\<lambda>s v. rnd (s + rnd (v * v))) a vs)"
  by (induction vs arbitrary: a) simp_all

lemma sum_squares_Fin: "sum_squares rnd (map Fin vs) = Fin (rounded_sum_sq rnd vs)"
  by (simp add: sum_squares_def rounded_sum_sq_def sum_squares_foldl_Fin)

lemma normalize_Fin:
  assumes "0 \<le> rounded_sum_sq rnd vs" and "rnd (sqrt (rounded_sum_sq rnd vs)) \<noteq> 0"
  shows "normalize rnd (map Fin vs)
           = map Fin (map (\<lambda>v. rnd (v / rnd (sqrt (rounded_sum_sq rnd vs)))) vs)"
  using assms by (simp add: normalize_def sum_squares_Fin Let_def)

lemma sum_sq_pos: "\<exists>v \<in> set vs. v \<noteq> 0 \<Longrightarrow> 0 < sum_sq vs"
proof (induction vs)
  case Nil
  then show ?case by simp
next
  case (Cons a vs)
  have eq: "sum_sq (a # vs) = a * a + sum_sq vs" by (simp add: sum_sq_def)
  show ?case
  proof (cases "a = 0")
    case True
    with Cons.prems have "\<exists>v \<in> set vs. v \<noteq> 0" by simp
    from Cons.IH [OF this] True show ?thesis unfolding eq by simp
  next
    case False
    then have "0 < a * a" by (auto simp add: zero_less_mult_iff)
    with sum_sq_nonneg [of vs] show ?thesis unfolding eq by linarith
  qed
qed

lemma draws_in_range:
  "Float64_in_range lib \<Longrightarrow> u \<in> set (draws lib n r) \<Longrightarrow> 0 \<le> u \<and> u < 1"
proof (induction n arbitrary: r)
  case 0
  then show ?case by simp
next
  case (Suc n)
  obtain u0 r' where d: "Float64 lib r = (u0, r')" by (cases "Float64 lib r")
  from Suc.prems(1) have "0 \<le> fst (Float64 lib r) \<and> fst (Float64 lib r) < 1"
    unfolding Float64_in_range_def by blast
  with d have u0: "0 \<le> u0 \<and> u0 < 1" by simp
  from Suc.prems(2) d have "u = u0 \<or> u \<in> set (draws lib n r')" by simp
  then show ?case using u0 Suc.IH [OF Suc.prems(1), of r'] by blast
qed

lemma length_draws [simp]: "length (draws lib n r) = n"
  by (induction n arbitrary: r) (auto split: prod.splits)

lemma raw_component_error:
  assumes r: "relative_error rnd eps" and e: "eps \<le> 1" and u: "0 \<le> u" "u < 1"
  shows "\<bar>rnd (rnd (u * 2) - 1) - (2 * u - 1)\<bar> \<le> 5 * eps"
proof -
  have e0: "0 \<le> eps" using r by (simp add: relative_error_def)
  have rel: "\<bar>rnd x - x\<bar> \<le> eps * \<bar>x\<bar>" for x using r unfolding relative_error_def by blast
  have "eps * \<bar>u * 2\<bar> \<le> eps * 2" using e0 u by (intro mult_left_mono) simp_all
  with rel [of "u * 2"] have a: "\<bar>rnd (u * 2) - u * 2\<bar> \<le> 2 * eps" by simp
  have "\<bar>rnd (u * 2) - 1\<bar> \<le> \<bar>rnd (u * 2) - u * 2\<bar> + \<bar>u * 2 - 1\<bar>" by linarith
  also have "\<dots> \<le> 2 * eps + 1" using a u by linarith
  also have "\<dots> \<le> 3" using e by simp
  finally have "eps * \<bar>rnd (u * 2) - 1\<bar> \<le> eps * 3" using e0 by (intro mult_left_mono) simp_all
  with rel [of "rnd (u * 2) - 1"]
  have b: "\<bar>rnd (rnd (u * 2) - 1) - (rnd (u * 2) - 1)\<bar> \<le> 3 * eps" by simp
  from a b show ?thesis by linarith
qed

lemma draws_counter_rand_a:
  "draws counter_rand 2 (NewSource counter_rand (input_seed ''a'')) = [1 / 4, 1 / 2]"
proof -
  have s: "NewSource counter_rand (input_seed ''a'') = 97"
    by (simp add: input_seed_def runeSelf_def counter_rand_def)
  have d: "draws counter_rand (Suc (Suc 0)) 97 = [1 / 4, 1 / 2]"
    by (simp add: counter_rand_def)
  have two: "(2 :: nat) = Suc (Suc 0)" by simp
  show ?thesis by (simp only: s two d)
qed







section \<open>The seed (C4, C9)\<close>


text \<open>
  C9: two inputs with the same seed get the same embedding, for every dimension; the
  distinct strings "Aa" and "BB" both have the seed 2112 and so the same embedding.
\<close>

theorem equal_seeds_equal_embeddings:
  "(input_seed s1 = input_seed s2 \<longrightarrow>
      generateMockEmbedding lib rnd s1 d = generateMockEmbedding lib rnd s2 d)
   \<and> ''Aa'' \<noteq> ''BB''
   \<and> input_seed ''Aa'' = 2112 \<and> input_seed ''BB'' = 2112
   \<and> generateMockEmbedding lib rnd ''Aa'' d = generateMockEmbedding lib rnd ''BB'' d"
proof -
  have a: "input_seed ''Aa'' = 2112" by (simp add: input_seed_def runeSelf_def)
  have b: "input_seed ''BB'' = 2112" by (simp add: input_seed_def runeSelf_def)
  show ?thesis
    unfolding generateMockEmbedding_def Let_def a b by simp
qed

theorem equal_seeds_equal_embeddings_witness:
  "input_seed ''Aa'' = input_seed ''BB''
   \<and> generateMockEmbedding counter_rand (\<lambda>x. x) ''Aa'' 3
       = generateMockEmbedding counter_rand (\<lambda>x. x) ''BB'' 3"
  using equal_seeds_equal_embeddings [of "''Aa''" "''BB''" counter_rand "\<lambda>x. x" 3]
  by simp

section \<open>The dimension of an embedding (C7)\<close>

text \<open>
  C7: for a dimension that is not negative \<open>generateMockEmbedding\<close> returns a vector of
  exactly that many values, for every input and also the empty string; the handler
  never panics and every entry of an embeddings response holds 1536 values.
\<close>

theorem embedding_dimension:
  "(0 \<le> dimensions \<longrightarrow>
      (\<exists>e. generateMockEmbedding lib rnd input dimensions = Inr e \<and> int (length e) = dimensions))
   \<and> (\<exists>e. generateMockEmbedding lib rnd [] 1536 = Inr e \<and> length e = 1536)
   \<and> (\<exists>resp. handleEmbeddings lib rnd config req = Inr resp
         \<and> (\<forall>r. body resp = EmbeddingBody r \<longrightarrow>
               (\<forall>d \<in> set (EmbeddingResponse.Data r). length (Embedding d) = 1536)))"
proof (intro conjI impI)
  assume "0 \<le> dimensions"
  then show "\<exists>e. generateMockEmbedding lib rnd input dimensions = Inr e \<and> int (length e) = dimensions"
    by (simp add: generateMockEmbedding_def Let_def)
next
  show "\<exists>e. generateMockEmbedding lib rnd [] 1536 = Inr e \<and> length e = 1536"
    by (simp add: generateMockEmbedding_1536)
next
  show "\<exists>resp. handleEmbeddings lib rnd config req = Inr resp
         \<and> (\<forall>r. body resp = EmbeddingBody r \<longrightarrow>
               (\<forall>d \<in> set (EmbeddingResponse.Data r). length (Embedding d) = 1536))"
  proof (cases "EmbeddingRequest.Model req = [] \<or>
           EmbeddingRequest.Model req \<in> set (Models.Embedding (Models config))")
    case True
    show ?thesis
      unfolding handleEmbeddings_accepts [OF True]
      by (auto dest: embedding_entries_dim)
  next
    case False
    then show ?thesis
      by (simp add: handleEmbeddings_rejects model_not_found_def)
  qed
qed

theorem embedding_dimension_witness:
  "(\<exists>e. generateMockEmbedding counter_rand (\<lambda>x. x) ''abc'' 2 = Inr e \<and> int (length e) = 2)
   \<and> (\<exists>resp. handleEmbeddings counter_rand (\<lambda>x. x) config0
                 \<lparr>EmbeddingRequest.Model = [], Input = Some [''abc'']\<rparr> = Inr resp
         \<and> (\<exists>r. body resp = EmbeddingBody r \<and> EmbeddingResponse.Data r \<noteq> []
               \<and> length (Embedding (hd (EmbeddingResponse.Data r))) = 1536))"
proof -
  let ?req = "\<lparr>EmbeddingRequest.Model = [], Input = Some [''abc'']\<rparr>"
  from embedding_dimension [of 2 counter_rand "\<lambda>x. x" "''abc''" config0 ?req]
  obtain resp where
    one: "\<exists>e. generateMockEmbedding counter_rand (\<lambda>x. x) ''abc'' 2 = Inr e \<and> int (length e) = 2"
    and resp: "handleEmbeddings counter_rand (\<lambda>x. x) config0 ?req = Inr resp"
    and dim: "\<forall>r. body resp = EmbeddingBody r \<longrightarrow>
               (\<forall>d \<in> set (EmbeddingResponse.Data r). length (Embedding d) = 1536)"
    by auto
  have "handleEmbeddings counter_rand (\<lambda>x. x) config0 ?req =
          Inr \<lparr>status = StatusOK,
         body = EmbeddingBody
           \<lparr>EmbeddingResponse.Object = ''list'',
            Data = embedding_entries counter_rand (\<lambda>x. x) 0 [''abc''],
            Model = ''text-embedding-ada-002'',
            Usage = \<lparr>EmbeddingUsage.PromptTokens = 0, TotalTokens = 0\<rparr>\<rparr>\<rparr>"
    by (simp add: handleEmbeddings_accepts default_model_def config0_def input_tokens_def)
  with resp obtain r where r: "body resp = EmbeddingBody r"
      "EmbeddingResponse.Data r = embedding_entries counter_rand (\<lambda>x. x) 0 [''abc'']"
    by auto
  then have ne: "EmbeddingResponse.Data r \<noteq> []" by simp
  then have "hd (EmbeddingResponse.Data r) \<in> set (EmbeddingResponse.Data r)" by simp
  with dim r have "length (Embedding (hd (EmbeddingResponse.Data r))) = 1536" by blast
  with one resp r ne show ?thesis by blast
qed

section \<open>Model validation (C5)\<close>

text \<open>
  C5: in both handlers, a non-empty model of the configured list gives status 200, a
  non-empty model outside the list gives status 400 with the error object
  \<open>model_not_found\<close> / \<open>invalid_request_error\<close> / \<open>model\<close> whose message quotes the
  model, and an empty model never gives 400. The chat handler reaches its response when
  \<open>rand.Intn\<close> keeps its documented range (\<open>randomID\<close> indexes \<open>charset\<close> with it).
\<close>

theorem model_validation:
  "(ChatCompletionRequest.Model creq \<noteq> []
      \<and> ChatCompletionRequest.Model creq \<in> set (Models.Chat (Models config))
      \<and> Intn_in_range lib \<longrightarrow>
      (\<exists>resp g'. handleChatCompletions lib config now creq g = (Inr resp, g') \<and> status resp = 200))
   \<and> (ChatCompletionRequest.Model creq \<noteq> []
      \<and> ChatCompletionRequest.Model creq \<notin> set (Models.Chat (Models config)) \<longrightarrow>
      handleChatCompletions lib config now creq g =
        (Inr \<lparr>status = 400,
              body = ErrorBody
                \<lparr>message = ''The model '' @ [CHR 0x27] @ ChatCompletionRequest.Model creq
                             @ [CHR 0x27] @ '' does not exist'',
                 type = ''invalid_request_error'', param = ''model'',
                 code = ''model_not_found''\<rparr>\<rparr>, g))
   \<and> (ChatCompletionRequest.Model creq = [] \<longrightarrow>
      (\<forall>resp. fst (handleChatCompletions lib config now creq g) = Inr resp \<longrightarrow> status resp = 200)
      \<and> (Intn_in_range lib \<longrightarrow>
           (\<exists>resp g'. handleChatCompletions lib config now creq g = (Inr resp, g')
              \<and> status resp = 200)))
   \<and> (EmbeddingRequest.Model ereq \<noteq> []
      \<and> EmbeddingRequest.Model ereq \<in> set (Models.Embedding (Models config)) \<longrightarrow>
      (\<exists>resp. handleEmbeddings lib rnd config ereq = Inr resp \<and> status resp = 200))
   \<and> (EmbeddingRequest.Model ereq \<noteq> []
      \<and> EmbeddingRequest.Model ereq \<notin> set (Models.Embedding (Models config)) \<longrightarrow>
      handleEmbeddings lib rnd config ereq =
        Inr \<lparr>status = 400,
             body = ErrorBody
               \<lparr>message = ''The model '' @ [CHR 0x27] @ EmbeddingRequest.Model ereq
                            @ [CHR 0x27] @ '' does not exist'',
                type = ''invalid_request_error'', param = ''model'',
                code = ''model_not_found''\<rparr>\<rparr>)
   \<and> (EmbeddingRequest.Model ereq = [] \<longrightarrow>
      (\<exists>resp. handleEmbeddings lib rnd config ereq = Inr resp \<and> status resp = 200))"
proof (intro conjI impI allI)
  assume a: "ChatCompletionRequest.Model creq \<noteq> []
      \<and> ChatCompletionRequest.Model creq \<in> set (Models.Chat (Models config))
      \<and> Intn_in_range lib"
  then have "Intn_in_range lib" by simp
  from randomID_ok [OF this, of g]
  obtain rid g' where "randomID lib 29 g = (Inr rid, g')" by blast
  with a show "\<exists>resp g'. handleChatCompletions lib config now creq g = (Inr resp, g') \<and> status resp = 200"
    by (simp add: handleChatCompletions_accepts StatusOK_def)
next
  assume "ChatCompletionRequest.Model creq \<noteq> []
      \<and> ChatCompletionRequest.Model creq \<notin> set (Models.Chat (Models config))"
  then show "handleChatCompletions lib config now creq g =
        (Inr \<lparr>status = 400,
              body = ErrorBody
                \<lparr>message = ''The model '' @ [CHR 0x27] @ ChatCompletionRequest.Model creq
                             @ [CHR 0x27] @ '' does not exist'',
                 type = ''invalid_request_error'', param = ''model'',
                 code = ''model_not_found''\<rparr>\<rparr>, g)"
    by (simp add: handleChatCompletions_rejects model_not_found_def StatusBadRequest_def)
next
  fix resp
  assume "ChatCompletionRequest.Model creq = []"
    and "fst (handleChatCompletions lib config now creq g) = Inr resp"
  then show "status resp = 200"
    by (auto simp add: handleChatCompletions_accepts StatusOK_def split: prod.splits sum.splits)
next
  assume a: "ChatCompletionRequest.Model creq = []" "Intn_in_range lib"
  then have "Intn_in_range lib" by simp
  from randomID_ok [OF this, of g]
  obtain rid g' where "randomID lib 29 g = (Inr rid, g')" by blast
  with a show "\<exists>resp g'. handleChatCompletions lib config now creq g = (Inr resp, g') \<and> status resp = 200"
    by (simp add: handleChatCompletions_accepts StatusOK_def)
next
  assume "EmbeddingRequest.Model ereq \<noteq> []
      \<and> EmbeddingRequest.Model ereq \<in> set (Models.Embedding (Models config))"
  then show "\<exists>resp. handleEmbeddings lib rnd config ereq = Inr resp \<and> status resp = 200"
    by (simp add: handleEmbeddings_accepts StatusOK_def)
next
  assume "EmbeddingRequest.Model ereq \<noteq> []
      \<and> EmbeddingRequest.Model ereq \<notin> set (Models.Embedding (Models config))"
  then show "handleEmbeddings lib rnd config ereq =
        Inr \<lparr>status = 400,
             body = ErrorBody
               \<lparr>message = ''The model '' @ [CHR 0x27] @ EmbeddingRequest.Model ereq
                            @ [CHR 0x27] @ '' does not exist'',
                type = ''invalid_request_error'', param = ''model'',
                code = ''model_not_found''\<rparr>\<rparr>"
    by (simp add: handleEmbeddings_rejects model_not_found_def StatusBadRequest_def)
next
  assume "EmbeddingRequest.Model ereq = []"
  then show "\<exists>resp. handleEmbeddings lib rnd config ereq = Inr resp \<and> status resp = 200"
    by (simp add: handleEmbeddings_accepts StatusOK_def)
qed

theorem model_validation_witness:
  "(\<exists>resp g'. handleChatCompletions counter_rand config0 0
        \<lparr>ChatCompletionRequest.Model = ''gpt-4'', Messages = None\<rparr> 0 = (Inr resp, g')
        \<and> status resp = 200)
   \<and> fst (handleChatCompletions counter_rand config0 0
        \<lparr>ChatCompletionRequest.Model = ''gpt-5'', Messages = None\<rparr> 0) =
        Inr \<lparr>status = 400,
              body = ErrorBody
                \<lparr>message = ''The model '' @ [CHR 0x27] @ ''gpt-5'' @ [CHR 0x27] @ '' does not exist'',
                 type = ''invalid_request_error'', param = ''model'',
                 code = ''model_not_found''\<rparr>\<rparr>
   \<and> (\<exists>resp g'. handleChatCompletions counter_rand config0 0
        \<lparr>ChatCompletionRequest.Model = [], Messages = None\<rparr> 0 = (Inr resp, g')
        \<and> status resp = 200)
   \<and> (\<exists>resp. handleEmbeddings counter_rand (\<lambda>x. x) config0
        \<lparr>EmbeddingRequest.Model = ''text-embedding-ada-002'', Input = None\<rparr> = Inr resp
        \<and> status resp = 200)
   \<and> (\<exists>resp. handleEmbeddings counter_rand (\<lambda>x. x) config0
        \<lparr>EmbeddingRequest.Model = ''ada'', Input = None\<rparr> = Inr resp
        \<and> status resp = 400)
   \<and> (\<exists>resp. handleEmbeddings counter_rand (\<lambda>x. x) config0
        \<lparr>EmbeddingRequest.Model = [], Input = None\<rparr> = Inr resp
        \<and> status resp = 200)"
  using
    model_validation [where creq = "\<lparr>ChatCompletionRequest.Model = ''gpt-4'', Messages = None\<rparr>"
      and config = config0 and lib = counter_rand and now = 0 and g = 0 and rnd = "\<lambda>x. x"
      and ereq = "\<lparr>EmbeddingRequest.Model = ''text-embedding-ada-002'', Input = None\<rparr>"]
    model_validation [where creq = "\<lparr>ChatCompletionRequest.Model = ''gpt-5'', Messages = None\<rparr>"
      and config = config0 and lib = counter_rand and now = 0 and g = 0 and rnd = "\<lambda>x. x"
      and ereq = "\<lparr>EmbeddingRequest.Model = ''ada'', Input = None\<rparr>"]
    model_validation [where creq = "\<lparr>ChatCompletionRequest.Model = [], Messages = None\<rparr>"
      and config = config0 and lib = counter_rand and now = 0 and g = 0 and rnd = "\<lambda>x. x"
      and ereq = "\<lparr>EmbeddingRequest.Model = [], Input = None\<rparr>"]
    Intn_in_range_counter_rand
  by (simp add: config0_def)

section \<open>Usage of a chat completion (C6, C10)\<close>

text \<open>
  C6: in every chat response with status 200, \<open>PromptTokens\<close> is \<open>calculateTokens\<close> of
  the effective messages, that is the sum of \<open>len(content) / 4\<close> (integer division)
  over them, \<open>CompletionTokens\<close> is 20 and \<open>TotalTokens\<close> is their sum; without
  messages in the request the effective messages are the single message
  \<open>user\<close>/\<open>Hello\<close> and \<open>PromptTokens\<close> is 1.
\<close>

theorem chat_usage:
  "handleChatCompletions lib config now req g = (Inr resp, g') \<and> status resp = 200 \<longrightarrow>
     (\<exists>r. body resp = ChatBody r
        \<and> ChatUsage.PromptTokens (ChatCompletionResponse.Usage r) =
            calculateTokens (case Messages req of
                               None \<Rightarrow> [\<lparr>Role = ''user'', Content = ''Hello''\<rparr>]
                             | Some ms \<Rightarrow> ms)
        \<and> ChatUsage.PromptTokens (ChatCompletionResponse.Usage r) =
            sum_list (map (\<lambda>msg. int (length (Content msg)) div 4)
              (case Messages req of
                 None \<Rightarrow> [\<lparr>Role = ''user'', Content = ''Hello''\<rparr>]
               | Some ms \<Rightarrow> ms))
        \<and> CompletionTokens (ChatCompletionResponse.Usage r) = 20
        \<and> ChatUsage.TotalTokens (ChatCompletionResponse.Usage r) =
            ChatUsage.PromptTokens (ChatCompletionResponse.Usage r) + 20
        \<and> (Messages req = None \<longrightarrow>
              ChatUsage.PromptTokens (ChatCompletionResponse.Usage r) = 1))"
proof (intro impI, elim conjE)
  assume h: "handleChatCompletions lib config now req g = (Inr resp, g')" and s: "status resp = 200"
  show "\<exists>r. body resp = ChatBody r
        \<and> ChatUsage.PromptTokens (ChatCompletionResponse.Usage r) =
            calculateTokens (case Messages req of
                               None \<Rightarrow> [\<lparr>Role = ''user'', Content = ''Hello''\<rparr>]
                             | Some ms \<Rightarrow> ms)
        \<and> ChatUsage.PromptTokens (ChatCompletionResponse.Usage r) =
            sum_list (map (\<lambda>msg. int (length (Content msg)) div 4)
              (case Messages req of
                 None \<Rightarrow> [\<lparr>Role = ''user'', Content = ''Hello''\<rparr>]
               | Some ms \<Rightarrow> ms))
        \<and> CompletionTokens (ChatCompletionResponse.Usage r) = 20
        \<and> ChatUsage.TotalTokens (ChatCompletionResponse.Usage r) =
            ChatUsage.PromptTokens (ChatCompletionResponse.Usage r) + 20
        \<and> (Messages req = None \<longrightarrow>
              ChatUsage.PromptTokens (ChatCompletionResponse.Usage r) = 1)"
  proof (cases "ChatCompletionRequest.Model req = [] \<or>
           ChatCompletionRequest.Model req \<in> set (Models.Chat (Models config))")
    case True
    from h show ?thesis
      unfolding handleChatCompletions_accepts [OF True]
      by (auto simp add: calculateTokens_sum split: prod.splits sum.splits)
  next
    case False
    with h s show ?thesis
      by (auto simp add: handleChatCompletions_rejects model_not_found_def StatusBadRequest_def)
  qed
qed

theorem chat_usage_witness:
  "\<exists>resp g' r. handleChatCompletions counter_rand config0 0
        \<lparr>ChatCompletionRequest.Model = [], Messages = None\<rparr> 0 = (Inr resp, g')
     \<and> status resp = 200 \<and> body resp = ChatBody r
     \<and> ChatUsage.PromptTokens (ChatCompletionResponse.Usage r) = 1
     \<and> CompletionTokens (ChatCompletionResponse.Usage r) = 20
     \<and> ChatUsage.TotalTokens (ChatCompletionResponse.Usage r) = 21"
proof -
  let ?req = "\<lparr>ChatCompletionRequest.Model = [], Messages = None\<rparr>"
  obtain rid g' where rid: "randomID counter_rand 29 0 = (Inr rid, g')"
    using randomID_ok [OF Intn_in_range_counter_rand, of 0] by blast
  then obtain resp where
    h: "handleChatCompletions counter_rand config0 0 ?req 0 = (Inr resp, g')"
    and s: "status resp = 200"
    by (simp add: handleChatCompletions_accepts StatusOK_def)
  from chat_usage [of counter_rand config0 0 ?req 0 resp g'] h s
  show ?thesis by auto
qed

text \<open>
  C10: the defaults replace a nil slice only. With \<open>messages\<close> a list, the prompt
  tokens are those of that list, 0 for the empty list; with \<open>input\<close> a list, the
  response holds one entry per element, none for the empty list, whose token counts
  are both 0. A nil \<open>messages\<close> or \<open>input\<close> is replaced by the default message or
  input.
\<close>

theorem explicit_empty_lists:
  "(handleChatCompletions lib config now creq g = (Inr cresp, g') \<and> status cresp = 200 \<longrightarrow>
      (\<exists>r. body cresp = ChatBody r
         \<and> (\<forall>ms. Messages creq = Some ms \<longrightarrow>
               ChatUsage.PromptTokens (ChatCompletionResponse.Usage r) = calculateTokens ms)
         \<and> (Messages creq = Some [] \<longrightarrow>
               ChatUsage.PromptTokens (ChatCompletionResponse.Usage r) = 0)
         \<and> (Messages creq = None \<longrightarrow>
               ChatUsage.PromptTokens (ChatCompletionResponse.Usage r) =
                 calculateTokens [\<lparr>Role = ''user'', Content = ''Hello''\<rparr>])))
   \<and> (handleEmbeddings lib rnd config ereq = Inr eresp \<and> status eresp = 200 \<longrightarrow>
      (\<exists>r. body eresp = EmbeddingBody r
         \<and> (\<forall>xs. Input ereq = Some xs \<longrightarrow>
               EmbeddingResponse.Data r = embedding_entries lib rnd 0 xs
               \<and> length (EmbeddingResponse.Data r) = length xs)
         \<and> (Input ereq = Some [] \<longrightarrow>
               EmbeddingResponse.Data r = []
               \<and> EmbeddingUsage.PromptTokens (EmbeddingResponse.Usage r) = 0
               \<and> EmbeddingUsage.TotalTokens (EmbeddingResponse.Usage r) = 0)
         \<and> (Input ereq = None \<longrightarrow>
               EmbeddingResponse.Data r =
                 [embedding_entry lib rnd 0 ''Default input text''])))"
proof (intro conjI impI; elim conjE)
  assume h: "handleChatCompletions lib config now creq g = (Inr cresp, g')"
    and s: "status cresp = 200"
  show "\<exists>r. body cresp = ChatBody r
         \<and> (\<forall>ms. Messages creq = Some ms \<longrightarrow>
               ChatUsage.PromptTokens (ChatCompletionResponse.Usage r) = calculateTokens ms)
         \<and> (Messages creq = Some [] \<longrightarrow>
               ChatUsage.PromptTokens (ChatCompletionResponse.Usage r) = 0)
         \<and> (Messages creq = None \<longrightarrow>
               ChatUsage.PromptTokens (ChatCompletionResponse.Usage r) =
                 calculateTokens [\<lparr>Role = ''user'', Content = ''Hello''\<rparr>])"
  proof (cases "ChatCompletionRequest.Model creq = [] \<or>
           ChatCompletionRequest.Model creq \<in> set (Models.Chat (Models config))")
    case True
    from h show ?thesis
      unfolding handleChatCompletions_accepts [OF True]
      by (auto simp add: calculateTokens_def split: prod.splits sum.splits)
  next
    case False
    with h s show ?thesis
      by (auto simp add: handleChatCompletions_rejects model_not_found_def StatusBadRequest_def)
  qed
next
  assume h: "handleEmbeddings lib rnd config ereq = Inr eresp" and s: "status eresp = 200"
  show "\<exists>r. body eresp = EmbeddingBody r
         \<and> (\<forall>xs. Input ereq = Some xs \<longrightarrow>
               EmbeddingResponse.Data r = embedding_entries lib rnd 0 xs
               \<and> length (EmbeddingResponse.Data r) = length xs)
         \<and> (Input ereq = Some [] \<longrightarrow>
               EmbeddingResponse.Data r = []
               \<and> EmbeddingUsage.PromptTokens (EmbeddingResponse.Usage r) = 0
               \<and> EmbeddingUsage.TotalTokens (EmbeddingResponse.Usage r) = 0)
         \<and> (Input ereq = None \<longrightarrow>
               EmbeddingResponse.Data r =
                 [embedding_entry lib rnd 0 ''Default input text''])"
  proof (cases "EmbeddingRequest.Model ereq = [] \<or>
           EmbeddingRequest.Model ereq \<in> set (Models.Embedding (Models config))")
    case True
    from h show ?thesis
      unfolding handleEmbeddings_accepts [OF True]
      by (auto simp add: input_tokens_def)
  next
    case False
    with h s show ?thesis
      by (auto simp add: handleEmbeddings_rejects model_not_found_def StatusBadRequest_def)
  qed
qed

theorem explicit_empty_lists_witness:
  "(\<exists>cresp g' r. handleChatCompletions counter_rand config0 0
        \<lparr>ChatCompletionRequest.Model = [], Messages = Some []\<rparr> 0 = (Inr cresp, g')
     \<and> status cresp = 200 \<and> body cresp = ChatBody r
     \<and> ChatUsage.PromptTokens (ChatCompletionResponse.Usage r) = 0)
   \<and> (\<exists>eresp r. handleEmbeddings counter_rand (\<lambda>x. x) config0
        \<lparr>EmbeddingRequest.Model = [], Input = Some []\<rparr> = Inr eresp
     \<and> status eresp = 200 \<and> body eresp = EmbeddingBody r
     \<and> EmbeddingResponse.Data r = []
     \<and> EmbeddingUsage.PromptTokens (EmbeddingResponse.Usage r) = 0
     \<and> EmbeddingUsage.TotalTokens (EmbeddingResponse.Usage r) = 0)"
proof -
  let ?creq = "\<lparr>ChatCompletionRequest.Model = [], Messages = Some []\<rparr>"
  let ?ereq = "\<lparr>EmbeddingRequest.Model = [], Input = Some []\<rparr>"
  obtain rid g' where rid: "randomID counter_rand 29 0 = (Inr rid, g')"
    using randomID_ok [OF Intn_in_range_counter_rand, of 0] by blast
  then obtain cresp where
    h: "handleChatCompletions counter_rand config0 0 ?creq 0 = (Inr cresp, g')"
    and s: "status cresp = 200"
    by (simp add: handleChatCompletions_accepts StatusOK_def)
  obtain eresp where
    eh: "handleEmbeddings counter_rand (\<lambda>x. x) config0 ?ereq = Inr eresp"
    and es: "status eresp = 200"
    by (simp add: handleEmbeddings_accepts StatusOK_def)
  from explicit_empty_lists [of counter_rand config0 0 ?creq 0 cresp g' "\<lambda>x. x" ?ereq eresp]
    h s eh es
  show ?thesis by auto
qed

section \<open>Determinism of the embeddings (C2)\<close>


section \<open>The zero vector (C1)\<close>




section \<open>Unit norm (C3)\<close>

text \<open>
  C3: the raw components are \<open>2*u - 1\<close> for the successive draws \<open>u\<close> of the
  generator, each in \<open>[0, 1)\<close>, so \<open>2*u - 1\<close> is in \<open>[-1, 1)\<close> and the computed
  component is within \<open>5 * eps\<close> of it; every component is divided by the norm
  computed from the raw vector; and unless all raw components are zero, the Euclidean
  norm of the result is 1 within the tolerance \<open>(n + 5) * eps\<close> of the rounding, and
  exactly 1 in exact arithmetic.
\<close>

theorem unit_norm_within_tolerance:
  "relative_error rnd eps \<and> (real n + 5) * eps < 1 \<and> Float64_in_range lib \<longrightarrow>
     (let us = draws lib n (NewSource lib (input_seed input));
          raw = map (\<lambda>u. rnd (rnd (u * 2) - 1)) us;
          mag = rnd (sqrt (rounded_sum_sq rnd raw));
          out = map (\<lambda>v. rnd (v / mag)) raw
      in draw_components lib rnd n (NewSource lib (input_seed input)) = map Fin raw
         \<and> (\<forall>u \<in> set us. 0 \<le> u \<and> u < 1 \<and> - 1 \<le> 2 * u - 1 \<and> 2 * u - 1 < 1
               \<and> \<bar>rnd (rnd (u * 2) - 1) - (2 * u - 1)\<bar> \<le> 5 * eps)
         \<and> ((\<exists>v \<in> set raw. v \<noteq> 0) \<longrightarrow>
               0 < mag
             \<and> generateMockEmbedding lib rnd input (int n) = Inr (map Fin out)
             \<and> 1 - (real n + 5) * eps \<le> sqrt (sum_sq out)
             \<and> sqrt (sum_sq out) \<le> 1 / (1 - (real n + 5) * eps)
             \<and> (eps = 0 \<longrightarrow> sqrt (sum_sq out) = 1)))"
proof (intro impI, elim conjE)
  assume r: "relative_error rnd eps" and t: "(real n + 5) * eps < 1"
    and rng: "Float64_in_range lib"
  let ?us = "draws lib n (NewSource lib (input_seed input))"
  let ?raw = "map (\<lambda>u. rnd (rnd (u * 2) - 1)) ?us"
  let ?mag = "rnd (sqrt (rounded_sum_sq rnd ?raw))"
  let ?out = "map (\<lambda>v. rnd (v / ?mag)) ?raw"
  have e0: "0 \<le> eps" using r by (simp add: relative_error_def)
  have "eps \<le> (real n + 5) * eps" using e0 by (simp add: algebra_simps)
  with t have e1: "eps < 1" by linarith
  have len: "length ?raw = n" by simp
  have dc: "draw_components lib rnd n (NewSource lib (input_seed input)) = map Fin ?raw"
    by (simp add: draw_components_draws comp_def)
  have comps: "\<forall>u \<in> set ?us. 0 \<le> u \<and> u < 1 \<and> - 1 \<le> 2 * u - 1 \<and> 2 * u - 1 < 1
               \<and> \<bar>rnd (rnd (u * 2) - 1) - (2 * u - 1)\<bar> \<le> 5 * eps"
  proof
    fix u assume "u \<in> set ?us"
    then have u: "0 \<le> u \<and> u < 1" using draws_in_range [OF rng] by blast
    then have "\<bar>rnd (rnd (u * 2) - 1) - (2 * u - 1)\<bar> \<le> 5 * eps"
      using raw_component_error [OF r, of u] e1 by simp
    with u show "0 \<le> u \<and> u < 1 \<and> - 1 \<le> 2 * u - 1 \<and> 2 * u - 1 < 1
               \<and> \<bar>rnd (rnd (u * 2) - 1) - (2 * u - 1)\<bar> \<le> 5 * eps" by simp
  qed
  have main: "0 < ?mag
             \<and> generateMockEmbedding lib rnd input (int n) = Inr (map Fin ?out)
             \<and> 1 - (real n + 5) * eps \<le> sqrt (sum_sq ?out)
             \<and> sqrt (sum_sq ?out) \<le> 1 / (1 - (real n + 5) * eps)
             \<and> (eps = 0 \<longrightarrow> sqrt (sum_sq ?out) = 1)"
    if nz: "\<exists>v \<in> set ?raw. v \<noteq> 0"
  proof -
    have pos: "0 < sum_sq ?raw" using nz by (rule sum_sq_pos)
    note nb = normalized_sum_sq_bounds [OF r e1 pos refl]
    have m0: "0 < ?mag" by (rule nb(1))
    have s0: "0 \<le> rounded_sum_sq rnd ?raw"
    proof -
      have "0 \<le> (1 - eps) ^ Suc (length ?raw) * sum_sq ?raw" using e1 pos by simp
      with rounded_sum_sq_bounds [OF r, of ?raw] e1 show ?thesis by linarith
    qed
    have m1: "?mag \<noteq> 0" using m0 by simp
    have "normalize rnd (map Fin ?raw) = map Fin ?out"
      by (rule normalize_Fin [OF s0 m1])
    then have gen: "generateMockEmbedding lib rnd input (int n) = Inr (map Fin ?out)"
      by (simp only: generateMockEmbedding_def Let_def dc nat_int) simp
    have t': "(real (n + 3) + 2) * eps < 1" using t by (simp add: algebra_simps)
    note tb = tolerance_bounds [OF e0 t']
    have k: "real (n + 3) + 2 = real n + 5" by simp
    have lo: "1 - (real n + 5) * eps \<le> sum_sq ?out"
      using tb(1) nb(2) unfolding len k by (rule order_trans)
    have hi: "sum_sq ?out \<le> 1 / (1 - (real n + 5) * eps)"
      using nb(3) tb(2) unfolding len k by (rule order_trans)
    have p: "0 < 1 - (real n + 5) * eps" using t by simp
    have q: "1 - (real n + 5) * eps \<le> 1" using e0 by simp
    note sb = sqrt_between [OF p q lo hi]
    have ex: "eps = 0 \<longrightarrow> sqrt (sum_sq ?out) = 1"
    proof
      assume z: "eps = 0"
      from sb have "1 \<le> sqrt (sum_sq ?out)" "sqrt (sum_sq ?out) \<le> 1" unfolding z by simp_all
      then show "sqrt (sum_sq ?out) = 1" by simp
    qed
    from m0 gen sb ex show ?thesis by (intro conjI)
  qed
  show "let us = draws lib n (NewSource lib (input_seed input));
          raw = map (\<lambda>u. rnd (rnd (u * 2) - 1)) us;
          mag = rnd (sqrt (rounded_sum_sq rnd raw));
          out = map (\<lambda>v. rnd (v / mag)) raw
      in draw_components lib rnd n (NewSource lib (input_seed input)) = map Fin raw
         \<and> (\<forall>u \<in> set us. 0 \<le> u \<and> u < 1 \<and> - 1 \<le> 2 * u - 1 \<and> 2 * u - 1 < 1
               \<and> \<bar>rnd (rnd (u * 2) - 1) - (2 * u - 1)\<bar> \<le> 5 * eps)
         \<and> ((\<exists>v \<in> set raw. v \<noteq> 0) \<longrightarrow>
               0 < mag
             \<and> generateMockEmbedding lib rnd input (int n) = Inr (map Fin out)
             \<and> 1 - (real n + 5) * eps \<le> sqrt (sum_sq out)
             \<and> sqrt (sum_sq out) \<le> 1 / (1 - (real n + 5) * eps)
             \<and> (eps = 0 \<longrightarrow> sqrt (sum_sq out) = 1))"
    unfolding Let_def
  proof (intro conjI)
    show "draw_components lib rnd n (NewSource lib (input_seed input)) = map Fin ?raw" by (rule dc)
    show "\<forall>u \<in> set ?us. 0 \<le> u \<and> u < 1 \<and> - 1 \<le> 2 * u - 1 \<and> 2 * u - 1 < 1
               \<and> \<bar>rnd (rnd (u * 2) - 1) - (2 * u - 1)\<bar> \<le> 5 * eps" by (rule comps)
    show "(\<exists>v \<in> set ?raw. v \<noteq> 0) \<longrightarrow>
               0 < ?mag
             \<and> generateMockEmbedding lib rnd input (int n) = Inr (map Fin ?out)
             \<and> 1 - (real n + 5) * eps \<le> sqrt (sum_sq ?out)
             \<and> sqrt (sum_sq ?out) \<le> 1 / (1 - (real n + 5) * eps)
             \<and> (eps = 0 \<longrightarrow> sqrt (sum_sq ?out) = 1)"
      using main by (rule impI)
  qed
qed

theorem unit_norm_within_tolerance_witness:
  "relative_error inflating_rnd (1 / 1024) \<and> Float64_in_range counter_rand
   \<and> (\<exists>out. generateMockEmbedding counter_rand inflating_rnd ''a'' 2 = Inr (map Fin out)
         \<and> length out = 2
         \<and> 1 - 7 / 1024 \<le> sqrt (sum_sq out) \<and> sqrt (sum_sq out) \<le> 1 / (1 - 7 / 1024))"
proof -
  let ?us = "draws counter_rand 2 (NewSource counter_rand (input_seed ''a''))"
  let ?raw = "map (\<lambda>u. inflating_rnd (inflating_rnd (u * 2) - 1)) ?us"
  let ?mag = "inflating_rnd (sqrt (rounded_sum_sq inflating_rnd ?raw))"
  let ?out = "map (\<lambda>v. inflating_rnd (v / ?mag)) ?raw"
  have nz: "\<exists>v \<in> set ?raw. v \<noteq> 0"
    unfolding draws_counter_rand_a by (simp add: inflating_rnd_def)
  have t: "(real 2 + 5) * (1 / 1024) < 1" by simp
  have hyp: "relative_error inflating_rnd (1 / 1024) \<and> (real 2 + 5) * (1 / 1024) < 1
             \<and> Float64_in_range counter_rand"
    using relative_error_inflating_rnd Float64_in_range_counter_rand t by (intro conjI)
  from unit_norm_within_tolerance [of inflating_rnd "1 / 1024" 2 counter_rand "''a''",
      unfolded Let_def, rule_format, OF hyp]
  have "(\<exists>v \<in> set ?raw. v \<noteq> 0) \<longrightarrow>
               0 < ?mag
             \<and> generateMockEmbedding counter_rand inflating_rnd ''a'' (int 2) = Inr (map Fin ?out)
             \<and> 1 - (real 2 + 5) * (1 / 1024) \<le> sqrt (sum_sq ?out)
             \<and> sqrt (sum_sq ?out) \<le> 1 / (1 - (real 2 + 5) * (1 / 1024))
             \<and> (1 / 1024 = (0::real) \<longrightarrow> sqrt (sum_sq ?out) = 1)"
    by (elim conjE)
  with nz have
    g: "generateMockEmbedding counter_rand inflating_rnd ''a'' (int 2) = Inr (map Fin ?out)"
    and lo: "1 - (real 2 + 5) * (1 / 1024) \<le> sqrt (sum_sq ?out)"
    and hi: "sqrt (sum_sq ?out) \<le> 1 / (1 - (real 2 + 5) * (1 / 1024))"
    by blast+
  have len: "length ?out = 2" by simp
  have c1: "1 - (real 2 + 5) * (1 / 1024) = 1 - 7 / 1024" by simp
  have c2: "int 2 = 2" by simp
  from g lo hi len have
    "generateMockEmbedding counter_rand inflating_rnd ''a'' 2 = Inr (map Fin ?out)
      \<and> length ?out = 2
      \<and> 1 - 7 / 1024 \<le> sqrt (sum_sq ?out) \<and> sqrt (sum_sq ?out) \<le> 1 / (1 - 7 / 1024)"
    unfolding c1 c2 by (intro conjI)
  then have "\<exists>out. generateMockEmbedding counter_rand inflating_rnd ''a'' 2 = Inr (map Fin out)
         \<and> length out = 2
         \<and> 1 - 7 / 1024 \<le> sqrt (sum_sq out) \<and> sqrt (sum_sq out) \<le> 1 / (1 - 7 / 1024)"
    by (rule exI [of _ ?out])
  with relative_error_inflating_rnd Float64_in_range_counter_rand show ?thesis by (intro conjI)
qed

section \<open>Latency (C8)\<close>




end
